theory Spec2Isabelle
  imports Main "HOL-Library.Word"
begin

unbundle bit_operations_syntax

section \<open>The machine: faults, sizes and raw storage\<close>

text \<open>
  The development embeds \<^verbatim>\<open>LazyVector.h\<close> (namespace \<^verbatim>\<open>Lazy\<close>): the growable container
  \<^verbatim>\<open>Vector<T>\<close>, the expression node \<^verbatim>\<open>BinaryExpression\<close> and the operation tags of
  \<^verbatim>\<open>BinaryOperations\<close>.

  Every way the C++ can leave the normal path is a value. \<open>out_of_range\<close> is the
  exception thrown by \<^verbatim>\<open>at\<close>, \<open>bad_alloc\<close> the exception of a failed \<^verbatim>\<open>new T[n]\<close>,
  and \<open>Undefined f\<close> stands for undefined behaviour of the kind \<open>f\<close>: once it is reached
  the C++ standard promises nothing, so no later state is modelled.
\<close>

datatype fault =
    NullPointer | WildPointer | DanglingPointer | DanglingReference
  | OutOfBounds | IndeterminateValue | DivisionByZero | ShiftCount

datatype error = out_of_range | bad_alloc | Undefined fault

definition and_then :: "error + 'a \<Rightarrow> ('a \<Rightarrow> error + 'b) \<Rightarrow> error + 'b" where
  "and_then m f = (case m of Inl e \<Rightarrow> Inl e | Inr x \<Rightarrow> f x)"

text \<open>
  A loop over the items of a range (\<^verbatim>\<open>for (auto& item : xi_list)\<close>) or over the indices
  \<open>[0..<n]\<close> (\<^verbatim>\<open>for (std::size_t i{}; i < n; ++i)\<close>): the body runs once per item, in
  order, and the first failure ends the loop.
\<close>

fun for_each :: "'i list \<Rightarrow> ('i \<Rightarrow> 's \<Rightarrow> error + 's) \<Rightarrow> 's \<Rightarrow> error + 's" where
  "for_each [] body s = Inr s"
| "for_each (i # is) body s = and_then (body i s) (for_each is body)"

text \<open>
  \<^verbatim>\<open>std::size_t\<close> is 64 bits wide: a size is a natural number below \<open>2 ^ 64\<close>, and
  \<open>size_t k\<close> is the value an arithmetic result \<open>k\<close> has once stored in a \<^verbatim>\<open>std::size_t\<close>
  (reduction modulo \<open>2 ^ 64\<close>, also for a negative \<open>k\<close>).
\<close>

definition size_t :: "int \<Rightarrow> nat" where
  "size_t k = nat (k mod 2 ^ 64)"

text \<open>
  No array object is larger than \<^verbatim>\<open>PTRDIFF_MAX\<close> bytes, and an element takes at least
  one byte: \<^verbatim>\<open>new T[n]\<close> throws for every \<open>n\<close> above that bound, whatever \<open>T\<close> is. The
  bound counts cells, not bytes, so it is the weakest one that holds for every element
  type: the program's limit is lower (\<open>PTRDIFF_MAX div sizeof(T)\<close> at most, and the
  memory at hand). Below the bound the model lets the allocation succeed, which is exact
  for the small sizes of the scenarios below. A lemma that assumes a capacity within
  \<open>PTRDIFF_MAX\<close> is a statement about this allocation model; what it says of the program
  is that nothing but a failed allocation stands in the way. The cells of a fresh array
  of an arithmetic type hold indeterminate values: \<open>None\<close>.
\<close>

definition PTRDIFF_MAX :: nat where
  "PTRDIFF_MAX = 2 ^ 63 - 1"

type_synonym 'a cell = "'a option"

definition new_array :: "nat \<Rightarrow> error + 'a cell list" where
  "new_array n = (if n \<le> PTRDIFF_MAX then Inr (replicate n None) else Inl bad_alloc)"

text \<open>
  The member \<^verbatim>\<open>T *m_data\<close>. A container owns its array exclusively, so the array's cells
  are kept with the pointer: \<open>Array b cells\<close> points to the first cell of the live heap
  array number \<open>b\<close>. \<open>nullptr\<close> is the null pointer and \<open>wild\<close> a pointer member that was
  never initialised. An iterator (\<^verbatim>\<open>T*\<close>) is \<open>Pointer b k\<close>: cell \<open>k\<close> of array number \<open>b\<close>.
  A pointer whose array number is not that of the container's live array is stale (its
  array was deleted) or foreign; using it is the fault \<open>DanglingPointer\<close>.
\<close>

datatype 'a storage = nullptr | wild | Array nat "'a cell list"

datatype pointer = null_pointer | wild_pointer | Pointer nat nat

text \<open>Reading \<^verbatim>\<open>m_data[idx]\<close> as a value, and the assignment \<^verbatim>\<open>m_data[idx] = x\<close>.\<close>

definition load_at :: "'a storage \<Rightarrow> nat \<Rightarrow> error + 'a" where
  "load_at d idx =
     (case d of
        nullptr \<Rightarrow> Inl (Undefined NullPointer)
      | wild \<Rightarrow> Inl (Undefined WildPointer)
      | Array b cells \<Rightarrow>
          if idx < length cells
          then (case cells ! idx of
                  None \<Rightarrow> Inl (Undefined IndeterminateValue)
                | Some x \<Rightarrow> Inr x)
          else Inl (Undefined OutOfBounds))"

definition store_at :: "'a storage \<Rightarrow> nat \<Rightarrow> 'a \<Rightarrow> error + 'a storage" where
  "store_at d idx x =
     (case d of
        nullptr \<Rightarrow> Inl (Undefined NullPointer)
      | wild \<Rightarrow> Inl (Undefined WildPointer)
      | Array b cells \<Rightarrow>
          if idx < length cells then Inr (Array b (cells[idx := Some x]))
          else Inl (Undefined OutOfBounds))"

text \<open>
  Reading and writing through an iterator: \<open>load_through d p\<close> is the value of \<^verbatim>\<open>*p\<close> and
  \<open>store_through d p x\<close> is \<^verbatim>\<open>(*p) = x\<close>, where \<open>d\<close> is the \<open>m_data\<close> of the moment.
\<close>

definition load_through :: "'a storage \<Rightarrow> pointer \<Rightarrow> error + 'a" where
  "load_through d p =
     (case p of
        null_pointer \<Rightarrow> Inl (Undefined NullPointer)
      | wild_pointer \<Rightarrow> Inl (Undefined WildPointer)
      | Pointer bp k \<Rightarrow>
          (case d of
             Array b cells \<Rightarrow>
               if bp = b
               then (if k < length cells
                     then (case cells ! k of
                             None \<Rightarrow> Inl (Undefined IndeterminateValue)
                           | Some x \<Rightarrow> Inr x)
                     else Inl (Undefined OutOfBounds))
               else Inl (Undefined DanglingPointer)
           | _ \<Rightarrow> Inl (Undefined DanglingPointer)))"

definition store_through :: "'a storage \<Rightarrow> pointer \<Rightarrow> 'a \<Rightarrow> error + 'a storage" where
  "store_through d p x =
     (case p of
        null_pointer \<Rightarrow> Inl (Undefined NullPointer)
      | wild_pointer \<Rightarrow> Inl (Undefined WildPointer)
      | Pointer bp k \<Rightarrow>
          (case d of
             Array b cells \<Rightarrow>
               if bp = b
               then (if k < length cells then Inr (Array b (cells[k := Some x]))
                     else Inl (Undefined OutOfBounds))
               else Inl (Undefined DanglingPointer)
           | _ \<Rightarrow> Inl (Undefined DanglingPointer)))"

text \<open>
  An argument of type \<^verbatim>\<open>const T&\<close> (or \<^verbatim>\<open>T&&\<close>) is a reference, and the callee reads it
  when it uses it, not when it is called. \<open>Outside x\<close> is a reference to an object that is
  not an element of the container (a temporary, a variable of the caller) and holds \<open>x\<close>;
  \<open>Element p\<close> is a reference to the cell the pointer \<open>p\<close> designates, as \<^verbatim>\<open>v[0]\<close> is.
  \<open>read_reference d r\<close> is the value read through \<open>r\<close> when \<open>m_data\<close> is \<open>d\<close>.
\<close>

datatype 'a reference = Outside 'a | Element pointer

definition read_reference :: "'a storage \<Rightarrow> 'a reference \<Rightarrow> error + 'a" where
  "read_reference d r = (case r of Outside x \<Rightarrow> Inr x | Element p \<Rightarrow> load_through d p)"

section \<open>The container \<^verbatim>\<open>Vector<T>\<close>\<close>

record 'a Vector =
  m_reservedSize :: nat
  m_size :: nat
  m_data :: "'a storage"

text \<open>
  \<^verbatim>\<open>reallocate()\<close>: a new array of \<open>m_reservedSize\<close> cells is allocated while the old one
  is still live (so it is a different array: the next number), \<open>m_size\<close> cells are copied
  by \<^verbatim>\<open>memcpy\<close>, indeterminate ones included, and the old array is deleted. Copying
  more cells than either array has is out of bounds.
\<close>

definition reallocate :: "'a Vector \<Rightarrow> error + 'a Vector" where
  "reallocate v =
     and_then (new_array (m_reservedSize v)) (\<lambda>temp.
       case m_data v of
         nullptr \<Rightarrow> Inl (Undefined NullPointer)
       | wild \<Rightarrow> Inl (Undefined WildPointer)
       | Array b cells \<Rightarrow>
           if m_size v \<le> length temp \<and> m_size v \<le> length cells
           then Inr (v\<lparr>m_data := Array (Suc b) (take (m_size v) cells @ drop (m_size v) temp)\<rparr>)
           else Inl (Undefined OutOfBounds))"

text \<open>The empty constructor \<^verbatim>\<open>Vector()\<close>; the members' default initialisers are 4 and 0.\<close>

definition Vector_default :: "error + 'a Vector" where
  "Vector_default =
     and_then (new_array 4) (\<lambda>cells.
       Inr \<lparr>m_reservedSize = 4, m_size = 0, m_data = Array 0 cells\<rparr>)"

text \<open>\<^verbatim>\<open>size()\<close>, \<^verbatim>\<open>capacity()\<close> and the two element accesses.\<close>

definition Vector_size :: "'a Vector \<Rightarrow> nat" where
  "Vector_size v = m_size v"

definition Vector_capacity :: "'a Vector \<Rightarrow> nat" where
  "Vector_capacity v = m_reservedSize v"

definition Vector_subscript :: "'a Vector \<Rightarrow> nat \<Rightarrow> error + 'a" where
  "Vector_subscript v idx = load_at (m_data v) idx"

definition Vector_at :: "'a Vector \<Rightarrow> nat \<Rightarrow> error + 'a" where
  "Vector_at v pos = (if pos < m_size v then load_at (m_data v) pos else Inl out_of_range)"

text \<open>
  \<^verbatim>\<open>push_back(const T& xi_value)\<close> (the overload taking \<^verbatim>\<open>T&&\<close> has the same body). The
  argument is a reference; it is read in \<^verbatim>\<open>m_data[m_size] = xi_value\<close>, after the growth
  step.
\<close>

definition Vector_push_back :: "'a Vector \<Rightarrow> 'a reference \<Rightarrow> error + 'a Vector" where
  "Vector_push_back v xi_value =
     and_then
       (if m_size v = m_reservedSize v
        then reallocate (v\<lparr>m_reservedSize := size_t (int (m_reservedSize v) * 2)\<rparr>)
        else Inr v)
       (\<lambda>v1. and_then (read_reference (m_data v1) xi_value) (\<lambda>x.
             and_then (store_at (m_data v1) (m_size v1) x) (\<lambda>d.
          Inr (v1\<lparr>m_data := d, m_size := size_t (int (m_size v1) + 1)\<rparr>))))"

text \<open>
  A caller appending the values of a list one after the other, each from an object
  outside the container (\<^verbatim>\<open>v.push_back(7)\<close>, \<^verbatim>\<open>v.push_back(x)\<close> for a variable \<open>x\<close>).
\<close>

fun push_back_all :: "'a Vector \<Rightarrow> 'a list \<Rightarrow> error + 'a Vector" where
  "push_back_all v [] = Inr v"
| "push_back_all v (x # xs) =
     and_then (Vector_push_back v (Outside x)) (\<lambda>v'. push_back_all v' xs)"


subsection \<open>Iterators into the array\<close>

text \<open>
  \<^verbatim>\<open>begin()\<close> and \<^verbatim>\<open>end()\<close>; \<open>address_of d k\<close> is \<^verbatim>\<open>&m_data[k]\<close>, \<open>pointer_diff p d\<close> is
  \<^verbatim>\<open>p - m_data\<close>, \<open>pointer_plus p k\<close> is \<^verbatim>\<open>p + k\<close>, \<open>Vector_reference v idx\<close> is the reference
  \<^verbatim>\<open>v[idx]\<close> that \<^verbatim>\<open>operator[]\<close> returns and \<open>memmove d dst src n\<close> moves \<open>n\<close> cells inside the array of \<open>d\<close>, the ranges may overlap.
  Lengths are counted in cells, not bytes. Both pointers of a subtraction, and every
  pointer that is dereferenced, must point into the live array.
\<close>

definition Vector_begin :: "'a Vector \<Rightarrow> pointer" where
  "Vector_begin v =
     (case m_data v of nullptr \<Rightarrow> null_pointer | wild \<Rightarrow> wild_pointer | Array b cells \<Rightarrow> Pointer b 0)"

definition pointer_plus :: "pointer \<Rightarrow> nat \<Rightarrow> pointer" where
  "pointer_plus p k =
     (case p of null_pointer \<Rightarrow> null_pointer | wild_pointer \<Rightarrow> wild_pointer
      | Pointer b i \<Rightarrow> Pointer b (i + k))"

definition Vector_end :: "'a Vector \<Rightarrow> pointer" where
  "Vector_end v = pointer_plus (Vector_begin v) (m_size v)"

definition Vector_reference :: "'a Vector \<Rightarrow> nat \<Rightarrow> 'a reference" where
  "Vector_reference v idx = Element (pointer_plus (Vector_begin v) idx)"

definition address_of :: "'a storage \<Rightarrow> nat \<Rightarrow> error + pointer" where
  "address_of d k =
     (case d of
        nullptr \<Rightarrow> Inl (Undefined NullPointer)
      | wild \<Rightarrow> Inl (Undefined WildPointer)
      | Array b cells \<Rightarrow>
          if k \<le> length cells then Inr (Pointer b k) else Inl (Undefined OutOfBounds))"

definition pointer_diff :: "pointer \<Rightarrow> 'a storage \<Rightarrow> error + nat" where
  "pointer_diff p d =
     (case d of
        nullptr \<Rightarrow> Inl (Undefined NullPointer)
      | wild \<Rightarrow> Inl (Undefined WildPointer)
      | Array b cells \<Rightarrow>
          (case p of
             null_pointer \<Rightarrow> Inl (Undefined NullPointer)
           | wild_pointer \<Rightarrow> Inl (Undefined WildPointer)
           | Pointer bp k \<Rightarrow> if bp = b then Inr k else Inl (Undefined DanglingPointer)))"

definition memmove :: "'a storage \<Rightarrow> pointer \<Rightarrow> pointer \<Rightarrow> nat \<Rightarrow> error + 'a storage" where
  "memmove d dst src n =
     (case (dst, src) of
        (Pointer bd i, Pointer bs j) \<Rightarrow>
          (case d of
             Array b cells \<Rightarrow>
               if bd = b \<and> bs = b
               then (if i + n \<le> length cells \<and> j + n \<le> length cells
                     then Inr (Array b (take i cells @ take n (drop j cells) @ drop (i + n) cells))
                     else Inl (Undefined OutOfBounds))
               else Inl (Undefined DanglingPointer)
           | _ \<Rightarrow> Inl (Undefined DanglingPointer))
      | (null_pointer, _) \<Rightarrow> Inl (Undefined NullPointer)
      | (_, null_pointer) \<Rightarrow> Inl (Undefined NullPointer)
      | _ \<Rightarrow> Inl (Undefined WildPointer))"

subsection \<open>Constructors\<close>

text \<open>
  \<^verbatim>\<open>Vector(const std::size_t xi_size)\<close>: capacity \<open>2 * xi_size\<close> (computed in
  \<^verbatim>\<open>std::size_t\<close>), the first \<open>xi_size\<close> cells set to \<^verbatim>\<open>T{}\<close>, which is zero for an
  arithmetic type.
\<close>

definition Vector_n :: "nat \<Rightarrow> error + ('a::zero) Vector" where
  "Vector_n xi_size =
     (let cap = size_t (2 * int xi_size) in
      and_then (new_array cap) (\<lambda>cells.
      and_then (for_each [0..<xi_size] (\<lambda>i d. store_at d i 0) (Array 0 cells)) (\<lambda>d.
        Inr \<lparr>m_reservedSize = cap, m_size = xi_size, m_data = d\<rparr>)))"

text \<open>
  \<^verbatim>\<open>Vector(std::initializer_list<T> xi_list)\<close>. As in the source, \<open>m_size\<close> is first set
  to the length of the list and then used, incremented, as the index of each write.
\<close>

definition Vector_initializer_list :: "'a list \<Rightarrow> error + 'a Vector" where
  "Vector_initializer_list xi_list =
     (let cap = size_t (2 * int (length xi_list)) in
      and_then (new_array cap) (\<lambda>cells.
        for_each xi_list
          (\<lambda>item v. and_then (store_at (m_data v) (m_size v) item) (\<lambda>d.
             Inr (v\<lparr>m_data := d, m_size := size_t (int (m_size v) + 1)\<rparr>)))
          \<lparr>m_reservedSize = cap, m_size = length xi_list, m_data = Array 0 cells\<rparr>))"

text \<open>
  The move constructor \<^verbatim>\<open>Vector(Vector&& xi_other)\<close>: the result is the new container
  paired with \<open>xi_other\<close> as the constructor leaves it. Each element is read from
  \<open>xi_other\<close> and assigned.
\<close>

definition Vector_move :: "'a Vector \<Rightarrow> error + ('a Vector \<times> 'a Vector)" where
  "Vector_move xi_other =
     and_then (new_array (m_reservedSize xi_other)) (\<lambda>cells.
     and_then
       (for_each [0..<m_size xi_other]
          (\<lambda>i d. and_then (load_at (m_data xi_other) i) (\<lambda>x. store_at d i x))
          (Array 0 cells)) (\<lambda>d.
       Inr (\<lparr>m_reservedSize = m_reservedSize xi_other, m_size = m_size xi_other, m_data = d\<rparr>,
            xi_other\<lparr>m_data := nullptr, m_size := 0\<rparr>)))"

subsection \<open>Insertion and erasure of one element\<close>

text \<open>
  \<^verbatim>\<open>insert(const T* xi_iterator, const T& xi_value)\<close> (the overload taking \<^verbatim>\<open>T&&\<close> has the
  same body). The statements are kept in the source's order: \<open>iit\<close> is computed from
  \<open>m_data\<close> before the reallocation, and \<^verbatim>\<open>xi_iterator - m_data\<close> is computed again, with
  the \<open>m_data\<close> of that moment, for the byte count of \<^verbatim>\<open>memmove\<close>. The argument
  \<open>xi_value\<close> is a reference, read in \<^verbatim>\<open>(*iit) = xi_value\<close> after the elements were moved.
\<close>

definition Vector_insert ::
  "'a Vector \<Rightarrow> pointer \<Rightarrow> 'a reference \<Rightarrow> error + ('a Vector \<times> pointer)" where
  "Vector_insert v xi_iterator xi_value =
     and_then (pointer_diff xi_iterator (m_data v)) (\<lambda>k.
     and_then (address_of (m_data v) k) (\<lambda>iit.
     and_then
       (if m_size v = m_reservedSize v
        then reallocate (v\<lparr>m_reservedSize := size_t (int (m_reservedSize v) * 2)\<rparr>)
        else Inr v) (\<lambda>v1.
     and_then (pointer_diff xi_iterator (m_data v1)) (\<lambda>k1.
     and_then (memmove (m_data v1) (pointer_plus iit 1) iit (size_t (int (m_size v1) - int k1))) (\<lambda>d.
     and_then (read_reference d xi_value) (\<lambda>x.
     and_then (store_through d iit x) (\<lambda>d'.
       Inr (v1\<lparr>m_data := d', m_size := size_t (int (m_size v1) + 1)\<rparr>, iit))))))))"

text \<open>\<^verbatim>\<open>erase(const T* xi_iterator)\<close>; an arithmetic \<open>T\<close> has no destructor to run.\<close>

definition Vector_erase :: "'a Vector \<Rightarrow> pointer \<Rightarrow> error + ('a Vector \<times> pointer)" where
  "Vector_erase v xi_iterator =
     and_then (pointer_diff xi_iterator (m_data v)) (\<lambda>k.
     and_then (address_of (m_data v) k) (\<lambda>iit.
     and_then (memmove (m_data v) iit (pointer_plus iit 1) (size_t (int (m_size v) - int k - 1))) (\<lambda>d.
       Inr (v\<lparr>m_data := d, m_size := size_t (int (m_size v) - 1)\<rparr>, iit))))"

section \<open>Operation tags: \<^verbatim>\<open>BinaryOperations\<close>\<close>

text \<open>
  The element type of the expression part is \<^verbatim>\<open>unsigned int\<close>, 32 bits wide: its
  arithmetic wraps around and is not subject to integer promotion. The tags are named as
  in the source; \<open>AND_logical\<close> and \<open>OR_logical\<close> are the tags \<^verbatim>\<open>AND\<close> and \<^verbatim>\<open>OR\<close> of
  \<^verbatim>\<open>&&\<close> and \<^verbatim>\<open>||\<close>.
\<close>

type_synonym unsigned = "32 word"

datatype tag =
    ADD | SUB | MUL | DIV | LOR | LAND | LXOR | SHL | SHR
  | AND_logical | OR_logical | EQ | NEQ | LT | LE | GT | GE

text \<open>
  The binary operator tokens of C++ that the file overloads to build nodes, and the nine
  compound assignment tokens. \<open>xi_operator t\<close> is the token the macro
  \<^verbatim>\<open>CREATE_BINARY_OPERATION\<close> binds to the tag \<open>t\<close>.
\<close>

datatype operator_symbol =
    op_plus | op_minus | op_times | op_divide | op_bitor | op_bitand | op_bitxor
  | op_shl | op_shr | op_and | op_or | op_eq | op_neq | op_lt | op_le | op_gt | op_ge

datatype assignment_symbol =
    op_plus_assign | op_minus_assign | op_times_assign | op_divide_assign | op_bitor_assign
  | op_bitand_assign | op_bitxor_assign | op_shl_assign | op_shr_assign

fun xi_operator :: "tag \<Rightarrow> operator_symbol" where
  "xi_operator ADD = op_plus"
| "xi_operator SUB = op_minus"
| "xi_operator MUL = op_times"
| "xi_operator DIV = op_divide"
| "xi_operator LOR = op_bitor"
| "xi_operator LAND = op_bitand"
| "xi_operator LXOR = op_bitxor"
| "xi_operator SHL = op_shl"
| "xi_operator SHR = op_shr"
| "xi_operator AND_logical = op_and"
| "xi_operator OR_logical = op_or"
| "xi_operator EQ = op_eq"
| "xi_operator NEQ = op_neq"
| "xi_operator LT = op_lt"
| "xi_operator LE = op_le"
| "xi_operator GT = op_gt"
| "xi_operator GE = op_ge"

text \<open>
  \<open>builtin t a b\<close> is \<^verbatim>\<open>a xi_operator b\<close> on \<^verbatim>\<open>unsigned int\<close>, converted to \<open>T\<close> (a \<^verbatim>\<open>bool\<close>
  becomes 0 or 1). Division by zero and a shift by 32 or more are undefined.
\<close>

fun builtin :: "tag \<Rightarrow> unsigned \<Rightarrow> unsigned \<Rightarrow> error + unsigned" where
  "builtin ADD a b = Inr (a + b)"
| "builtin SUB a b = Inr (a - b)"
| "builtin MUL a b = Inr (a * b)"
| "builtin DIV a b = (if b = 0 then Inl (Undefined DivisionByZero) else Inr (a div b))"
| "builtin LOR a b = Inr (a OR b)"
| "builtin LAND a b = Inr (a AND b)"
| "builtin LXOR a b = Inr (a XOR b)"
| "builtin SHL a b =
     (if unat b < 32 then Inr (push_bit (unat b) a) else Inl (Undefined ShiftCount))"
| "builtin SHR a b =
     (if unat b < 32 then Inr (drop_bit (unat b) a) else Inl (Undefined ShiftCount))"
| "builtin AND_logical a b = Inr (of_bool (a \<noteq> 0 \<and> b \<noteq> 0))"
| "builtin OR_logical a b = Inr (of_bool (a \<noteq> 0 \<or> b \<noteq> 0))"
| "builtin EQ a b = Inr (of_bool (a = b))"
| "builtin NEQ a b = Inr (of_bool (a \<noteq> b))"
| "builtin LT a b = Inr (of_bool (a < b))"
| "builtin LE a b = Inr (of_bool (a \<le> b))"
| "builtin GT a b = Inr (of_bool (a > b))"
| "builtin GE a b = Inr (of_bool (a \<ge> b))"

text \<open>
  The nine tags of the first macro have a compound form \<^verbatim>\<open>a xi_assign_operator b\<close>; on
  \<^verbatim>\<open>unsigned int\<close> it stores \<^verbatim>\<open>a xi_operator b\<close> in \<open>a\<close>. \<open>compound_assign t a b\<close> is the
  value of \<open>a\<close> afterwards.
\<close>

definition has_compound_form :: "tag \<Rightarrow> bool" where
  "has_compound_form t = (t \<in> {ADD, SUB, MUL, DIV, LOR, LAND, LXOR, SHL, SHR})"

definition compound_assign :: "tag \<Rightarrow> unsigned \<Rightarrow> unsigned \<Rightarrow> error + unsigned" where
  "compound_assign t a b = builtin t a b"

text \<open>
  The four overloads of \<^verbatim>\<open>apply\<close>, chosen by the value category of each argument:
  \<open>Lvalue\<close> binds to \<^verbatim>\<open>const T&\<close> and \<open>Rvalue\<close> to \<^verbatim>\<open>T&&\<close>. For a tag of the first macro the
  overloads taking a temporary update it in place; the overload
  \<^verbatim>\<open>apply(const T& a, T&& b)\<close> is \<^verbatim>\<open>b xi_assign_operator a\<close>.
\<close>

datatype 'a argument = Lvalue 'a | Rvalue 'a

fun BinaryOperations_apply :: "tag \<Rightarrow> unsigned argument \<Rightarrow> unsigned argument \<Rightarrow> error + unsigned" where
  "BinaryOperations_apply t (Lvalue a) (Lvalue b) = builtin t a b"
| "BinaryOperations_apply t (Rvalue a) (Lvalue b) =
     (if has_compound_form t then compound_assign t a b else builtin t a b)"
| "BinaryOperations_apply t (Lvalue a) (Rvalue b) =
     (if has_compound_form t then compound_assign t b a else builtin t a b)"
| "BinaryOperations_apply t (Rvalue a) (Rvalue b) =
     (if has_compound_form t then compound_assign t a b else builtin t a b)"

section \<open>Expression nodes: \<^verbatim>\<open>BinaryExpression\<close>\<close>

text \<open>
  A node holds its operands and nothing else. An operand is a container, held by
  reference (\<^verbatim>\<open>const Vector&\<close>): \<open>Vec a\<close> names the container object at address \<open>a\<close>; or it
  is another node. Container objects live in a store. An element of a container is an
  lvalue, the element of a node (the result of \<^verbatim>\<open>apply\<close>) a temporary.
\<close>

type_synonym addr = nat

type_synonym store = "addr \<Rightarrow> unsigned Vector option"

datatype expression = Vec addr | BinaryExpression expression tag expression

fun operand :: "expression \<Rightarrow> 'a \<Rightarrow> 'a argument" where
  "operand (Vec a) x = Lvalue x"
| "operand (BinaryExpression l t r) x = Rvalue x"

text \<open>
  \<open>subscript s e index\<close> is \<^verbatim>\<open>e[index]\<close> in the store \<open>s\<close>: \<^verbatim>\<open>Vector::operator[]\<close> for a
  container and \<^verbatim>\<open>BinaryExpression::operator[]\<close>, which is
  \<^verbatim>\<open>BinaryOp::apply(le()[index], re()[index])\<close>, for a node. Both operands are always
  evaluated; when both are faults the left one is reported (C++ does not fix the order,
  and no property below depends on it).
\<close>

fun subscript :: "store \<Rightarrow> expression \<Rightarrow> nat \<Rightarrow> error + unsigned" where
  "subscript s (Vec a) index =
     (case s a of None \<Rightarrow> Inl (Undefined DanglingReference) | Some v \<Rightarrow> Vector_subscript v index)"
| "subscript s (BinaryExpression l t r) index =
     and_then (subscript s l index) (\<lambda>a.
     and_then (subscript s r index) (\<lambda>b.
       BinaryOperations_apply t (operand l a) (operand r b)))"

text \<open>The containers an expression refers to.\<close>

fun operands :: "expression \<Rightarrow> addr set" where
  "operands (Vec a) = {a}"
| "operands (BinaryExpression l t r) = operands l \<union> operands r"

text \<open>
  The binary operator templates of \<^verbatim>\<open>Vector\<close> that return a node, in the order of the
  source, each with the tag of the node it returns. A use \<^verbatim>\<open>a op re\<close> of a binary operator
  token on a container is well-formed when exactly one template is declared under that
  token (all of them accept every right operand): with none there is no match, with
  several the call is ambiguous. (The compound assignment operators of \<^verbatim>\<open>Vector\<close> return
  the container, not a node; they are \<open>Vector_compound_assign\<close> below.)
\<close>

definition Vector_binary_operators :: "(operator_symbol \<times> tag) list" where
  "Vector_binary_operators =
     [(op_plus, ADD), (op_minus, SUB), (op_times, MUL), (op_divide, DIV),
      (op_bitand, LAND), (op_bitand, LOR), (op_bitxor, LXOR), (op_shl, SHL), (op_shr, SHR),
      (op_eq, EQ), (op_neq, NEQ), (op_lt, LT), (op_le, LE), (op_gt, GT), (op_ge, GE)]"

datatype ill_formed = no_matching_operator | ambiguous_overload

definition Vector_operator :: "operator_symbol \<Rightarrow> addr \<Rightarrow> expression \<Rightarrow> ill_formed + expression" where
  "Vector_operator token this xi_expression =
     (case filter (\<lambda>(k, t). k = token) Vector_binary_operators of
        [] \<Rightarrow> Inl no_matching_operator
      | [(k, t)] \<Rightarrow> Inr (BinaryExpression (Vec this) t xi_expression)
      | _ \<Rightarrow> Inl ambiguous_overload)"

text \<open>
  The operators of a node, all generated by \<^verbatim>\<open>CREATE_BINARY_EXPRESSION_OPERATOR\<close>: for
  each of the 26 tokens (the nine compound assignment tokens and the seventeen binary
  ones) the new node has the node itself as left operand and the node's own
  \<^verbatim>\<open>BinaryOp\<close> as tag.
\<close>

definition BinaryExpression_operator ::
  "assignment_symbol + operator_symbol \<Rightarrow> expression \<Rightarrow> tag \<Rightarrow> expression \<Rightarrow> expression \<Rightarrow>
     expression" where
  "BinaryExpression_operator token l t r re = BinaryExpression (BinaryExpression l t r) t re"

section \<open>Evaluating an expression into a container\<close>

text \<open>
  \<^verbatim>\<open>Vector& operator=(RightExpr&& xi_expression)\<close> on the container at address \<open>this\<close>:
  for every index below \<open>m_size\<close> the element of the expression is evaluated in the
  current store and assigned to \<^verbatim>\<open>this->operator[](i)\<close>. The expression may refer to the
  container it is assigned to. The loop bound is read once: the body changes no
  \<open>m_size\<close>.
\<close>

definition assign_element :: "store \<Rightarrow> addr \<Rightarrow> nat \<Rightarrow> unsigned \<Rightarrow> error + store" where
  "assign_element s this i x =
     (case s this of
        None \<Rightarrow> Inl (Undefined DanglingReference)
      | Some v \<Rightarrow> and_then (store_at (m_data v) i x) (\<lambda>d. Inr (s(this \<mapsto> v\<lparr>m_data := d\<rparr>))))"

definition Vector_assign :: "store \<Rightarrow> addr \<Rightarrow> expression \<Rightarrow> error + store" where
  "Vector_assign s this xi_expression =
     (case s this of
        None \<Rightarrow> Inl (Undefined DanglingReference)
      | Some v \<Rightarrow>
          for_each [0..<m_size v]
            (\<lambda>i s'. and_then (subscript s' xi_expression i) (assign_element s' this i)) s)"

text \<open>
  The constructor \<^verbatim>\<open>Vector(BinaryExpression<LE, Op, RE>&& xi_expression)\<close> creates the
  object at address \<open>this\<close>. It has no member initialiser list: \<open>m_reservedSize\<close> and
  \<open>m_size\<close> take their default initialisers 4 and 0, \<open>m_data\<close> is never assigned, and
  the loop is that of the assignment.
\<close>

definition Vector_expression :: "store \<Rightarrow> addr \<Rightarrow> expression \<Rightarrow> error + store" where
  "Vector_expression s this xi_expression =
     (let v = \<lparr>m_reservedSize = 4, m_size = 0, m_data = wild\<rparr> in
      for_each [0..<m_size v]
        (\<lambda>i s'. and_then (subscript s' xi_expression i) (assign_element s' this i))
        (s(this \<mapsto> v)))"

text \<open>
  The compound operators \<^verbatim>\<open>+=\<close>, \<^verbatim>\<open>-=\<close>, ... of \<^verbatim>\<open>Vector\<close> share one body:
  \<^verbatim>\<open>m_data[i] op= xi_expression[i]\<close> for every index below \<open>m_size\<close>; the right operand
  is evaluated first. \<open>Vector_add_assign\<close> is \<^verbatim>\<open>operator+=\<close>.
\<close>

definition compound_element :: "tag \<Rightarrow> store \<Rightarrow> addr \<Rightarrow> nat \<Rightarrow> unsigned \<Rightarrow> error + store" where
  "compound_element t s this i y =
     (case s this of
        None \<Rightarrow> Inl (Undefined DanglingReference)
      | Some v \<Rightarrow>
          and_then (load_at (m_data v) i) (\<lambda>x.
          and_then (compound_assign t x y) (\<lambda>z.
          and_then (store_at (m_data v) i z) (\<lambda>d. Inr (s(this \<mapsto> v\<lparr>m_data := d\<rparr>))))))"

definition Vector_compound_assign :: "tag \<Rightarrow> store \<Rightarrow> addr \<Rightarrow> expression \<Rightarrow> error + store" where
  "Vector_compound_assign t s this xi_expression =
     (case s this of
        None \<Rightarrow> Inl (Undefined DanglingReference)
      | Some v \<Rightarrow>
          for_each [0..<m_size v]
            (\<lambda>i s'. and_then (subscript s' xi_expression i) (compound_element t s' this i)) s)"

definition Vector_add_assign :: "store \<Rightarrow> addr \<Rightarrow> expression \<Rightarrow> error + store" where
  "Vector_add_assign s this xi_expression = Vector_compound_assign ADD s this xi_expression"

section \<open>The data model's invariant\<close>

text \<open>
  \<open>holds v xs\<close>: the container \<open>v\<close> is in a sound state and its elements are \<open>xs\<close>: the
  array has \<open>m_reservedSize\<close> cells, \<open>m_size\<close> is the length of \<open>xs\<close> and does not exceed
  the capacity, and the first \<open>m_size\<close> cells hold the values of \<open>xs\<close>. The cells from
  \<open>m_size\<close> on are not constrained.
\<close>

definition holds :: "'a Vector \<Rightarrow> 'a list \<Rightarrow> bool" where
  "holds v xs =
     (case m_data v of
        Array b cells \<Rightarrow>
          length cells = m_reservedSize v \<and> m_size v = length xs \<and>
          length xs \<le> length cells \<and> take (length xs) cells = map Some xs
      | _ \<Rightarrow> False)"


section \<open>Properties\<close>

subsection \<open>Sequencing, sizes and loops\<close>

lemma and_then_Inr: "and_then (Inr x) f = f x"
  by (simp add: and_then_def)

lemma and_then_Inl: "and_then (Inl e) f = Inl e"
  by (simp add: and_then_def)

lemma size_t_id: "n < 2 ^ 64 \<Longrightarrow> size_t (int n) = n"
  by (simp add: size_t_def)

lemma size_t_double: "n \<le> PTRDIFF_MAX \<Longrightarrow> size_t (int n * 2) = 2 * n"
  unfolding size_t_def PTRDIFF_MAX_def by (subst mod_pos_pos_trivial) auto

lemma size_t_Suc: "n \<le> PTRDIFF_MAX \<Longrightarrow> size_t (int n + 1) = Suc n"
  unfolding size_t_def PTRDIFF_MAX_def by (subst mod_pos_pos_trivial) auto

lemma size_t_diff: "k \<le> n \<Longrightarrow> n < 2 ^ 64 \<Longrightarrow> size_t (int n - int k) = n - k"
proof -
  assume a: "k \<le> n" "n < 2 ^ 64"
  then have "int n - int k = int (n - k)" by simp
  moreover have "n - k < 2 ^ 64" using a by simp
  ultimately show ?thesis by (simp only: size_t_id)
qed

lemma replicate_4: "replicate 4 x = [x, x, x, x]" by (simp add: eval_nat_numeral)

lemma replicate_6: "replicate 6 x = [x, x, x, x, x, x]" by (simp add: eval_nat_numeral)

lemma replicate_8: "replicate 8 x = [x, x, x, x, x, x, x, x]" by (simp add: eval_nat_numeral)

lemma all_less_2: "(\<forall>i<2. P i) \<longleftrightarrow> P 0 \<and> P (Suc 0)"
  by (auto simp: less_Suc_eq numeral_2_eq_2)

lemma for_each_append:
  "for_each (xs @ ys) body s = and_then (for_each xs body s) (for_each ys body)"
  by (induction xs arbitrary: s) (auto simp: and_then_def split: sum.splits)

lemma for_each_single: "for_each [i] body s = body i s"
  by (simp add: and_then_def split: sum.splits)

subsection \<open>Appending\<close>

lemma holds_subscript:
  "holds v xs \<Longrightarrow> i < length xs \<Longrightarrow> Vector_subscript v i = Inr (xs ! i)"
proof -
  assume h: "holds v xs" and i: "i < length xs"
  then obtain b cells where d: "m_data v = Array b cells"
    and l: "length xs \<le> length cells" and t: "take (length xs) cells = map Some xs"
    by (auto simp: holds_def split: storage.splits)
  have "cells ! i = take (length xs) cells ! i" using i by simp
  also have "\<dots> = Some (xs ! i)" using i t by simp
  finally show ?thesis using d l i by (simp add: Vector_subscript_def load_at_def)
qed

lemma take_update_snoc:
  "n < length cells \<Longrightarrow> take n cells = ys \<Longrightarrow> take (Suc n) (cells[n := y]) = ys @ [y]"
  by (auto simp: take_Suc_conv_app_nth)

lemma push_back_room:
  assumes "holds v xs" "m_size v \<noteq> m_reservedSize v" "m_reservedSize v \<le> PTRDIFF_MAX"
  shows "\<exists>v'. Vector_push_back v (Outside x) = Inr v' \<and> holds v' (xs @ [x]) \<and>
           m_reservedSize v' = m_reservedSize v"
proof -
  from assms(1) obtain b cells where d: "m_data v = Array b cells"
    and c: "length cells = m_reservedSize v" and s: "m_size v = length xs"
    and l: "length xs \<le> length cells" and t: "take (length xs) cells = map Some xs"
    by (auto simp: holds_def split: storage.splits)
  have lt: "length xs < length cells" using assms(2) c s l by simp
  have sz: "size_t (int (length xs) + 1) = Suc (length xs)"
    using lt c assms(3) by (intro size_t_Suc) simp
  show ?thesis
    using d c s lt sz take_update_snoc[OF lt t, of "Some x"]
    by (simp add: Vector_push_back_def read_reference_def and_then_def store_at_def holds_def)
qed

lemma push_back_full:
  assumes "holds v xs" "m_size v = m_reservedSize v" "0 < m_reservedSize v"
    "m_reservedSize v \<le> PTRDIFF_MAX"
  shows "if 2 * m_reservedSize v \<le> PTRDIFF_MAX
         then \<exists>v'. Vector_push_back v (Outside x) = Inr v' \<and> holds v' (xs @ [x]) \<and>
                m_reservedSize v' = 2 * m_reservedSize v
         else Vector_push_back v (Outside x) = Inl bad_alloc"
proof -
  define n where "n = length xs"
  from assms(1) obtain b cells where d: "m_data v = Array b cells"
    and c: "length cells = m_reservedSize v" and s: "m_size v = n"
    and t: "take n cells = map Some xs"
    by (auto simp: holds_def n_def split: storage.splits)
  have cap: "m_reservedSize v = n" using assms(2) s by simp
  have len: "length cells = n" using c cap by simp
  have cs: "cells = map Some xs" using t len by simp
  have dbl: "size_t (int (m_reservedSize v) * 2) = 2 * n"
    using assms(4) cap size_t_double by metis
  let ?v0 = "v\<lparr>m_reservedSize := 2 * n\<rparr>"
  show ?thesis
  proof (cases "2 * n \<le> PTRDIFF_MAX")
    case False
    have "reallocate ?v0 = Inl bad_alloc"
      using False by (simp add: reallocate_def new_array_def and_then_def)
    then have "Vector_push_back v (Outside x) = Inl bad_alloc"
      using assms(2) dbl by (simp add: Vector_push_back_def and_then_def)
    then show ?thesis using False cap by simp
  next
    case True
    let ?v1 = "v\<lparr>m_reservedSize := 2 * n, m_data := Array (Suc b) (cells @ replicate n None)\<rparr>"
    have "drop n (replicate (2 * n) None) = replicate n (None :: 'a option)" by simp
    then have r: "reallocate ?v0 = Inr ?v1"
      using True d s len by (simp add: reallocate_def new_array_def and_then_def)
    have sz: "size_t (int n + 1) = Suc n"
      using True by (intro size_t_Suc) simp
    have pos: "0 < n" using assms(3) cap by simp
    let ?v2 = "v\<lparr>m_reservedSize := 2 * n, m_data := Array (Suc b) (cells @ (replicate n None)[0 := Some x]), m_size := Suc n\<rparr>"
    have "store_at (m_data ?v1) (m_size ?v1) x = Inr (Array (Suc b) (cells @ (replicate n None)[0 := Some x]))"
      using pos s len by (simp add: store_at_def list_update_append)
    then have p: "Vector_push_back v (Outside x) = Inr ?v2"
      using assms(2) dbl r sz s by (simp add: Vector_push_back_def read_reference_def and_then_def)
    have "take (Suc n) (cells @ (replicate n None)[0 := Some x]) = map Some (xs @ [x])"
      using pos len cs by (simp add: take_Suc_conv_app_nth nth_append n_def)
    moreover have "Suc n \<le> length (cells @ (replicate n None)[0 := Some x])"
      using len pos by simp
    moreover have "length (cells @ (replicate n None)[0 := Some x]) = 2 * n"
      using len by simp
    ultimately have "holds ?v2 (xs @ [x])"
      unfolding holds_def n_def by simp
    then show ?thesis using True cap p by simp
  qed
qed

lemma push_back_all_holds:
  "holds v xs \<Longrightarrow> 0 < m_reservedSize v \<Longrightarrow> m_reservedSize v \<le> PTRDIFF_MAX \<Longrightarrow>
   push_back_all v ys = Inl bad_alloc \<or>
   (\<exists>v'. push_back_all v ys = Inr v' \<and> holds v' (xs @ ys))"
proof (induction ys arbitrary: v xs)
  case Nil
  then show ?case by simp
next
  case (Cons y ys)
  show ?case
  proof (cases "m_size v = m_reservedSize v")
    case False
    from push_back_room[OF Cons.prems(1) False Cons.prems(3), of y]
    obtain v' where p: "Vector_push_back v (Outside y) = Inr v'" and h: "holds v' (xs @ [y])"
      and c: "m_reservedSize v' = m_reservedSize v" by blast
    from Cons.IH[OF h] Cons.prems(2,3) c p show ?thesis
      by (simp add: and_then_def)
  next
    case True
    note full = push_back_full[OF Cons.prems(1) True Cons.prems(2,3), of y]
    show ?thesis
    proof (cases "2 * m_reservedSize v \<le> PTRDIFF_MAX")
      case le: True
      with full obtain v' where p: "Vector_push_back v (Outside y) = Inr v'"
        and h: "holds v' (xs @ [y])" and c: "m_reservedSize v' = 2 * m_reservedSize v"
        by auto
      from Cons.IH[OF h] Cons.prems(2) le c p show ?thesis
        by (simp add: and_then_def)
    next
      case gt: False
      with full have p: "Vector_push_back v (Outside y) = Inl bad_alloc" by simp
      then show ?thesis by (simp add: and_then_def)
    qed
  qed
qed

lemma holds_default: "\<exists>v0. Vector_default = Inr v0 \<and> holds v0 [] \<and> m_reservedSize v0 = 4"
  by (simp add: Vector_default_def new_array_def PTRDIFF_MAX_def and_then_def holds_def)

lemma push_back_values:
  "\<exists>v0. Vector_default = Inr v0 \<and>
     (push_back_all v0 vs = Inl bad_alloc \<or>
      (\<exists>v. push_back_all v0 vs = Inr v \<and> Vector_size v = length vs \<and>
         (\<forall>i<length vs. Vector_subscript v i = Inr (vs ! i))))"
proof -
  from holds_default obtain v0 :: "'a Vector" where d: "Vector_default = Inr v0"
    and h: "holds v0 []" and c: "m_reservedSize v0 = 4" by blast
  have "m_reservedSize v0 \<le> PTRDIFF_MAX" using c by (simp add: PTRDIFF_MAX_def)
  with push_back_all_holds[OF h, of vs] c
  consider "push_back_all v0 vs = Inl bad_alloc"
    | v where "push_back_all v0 vs = Inr v" "holds v vs"
    by auto
  then show ?thesis
  proof cases
    case 1
    with d show ?thesis by blast
  next
    case 2
    have "Vector_size v = length vs"
      using 2(2) by (auto simp: holds_def Vector_size_def split: storage.splits)
    with 2 d holds_subscript[OF 2(2)] show ?thesis by blast
  qed
qed

lemma push_back_four:
  "Vector_default = Inr \<lparr>m_reservedSize = 4, m_size = 0, m_data = Array 0 [None, None, None, None]\<rparr> \<and>
   push_back_all \<lparr>m_reservedSize = 4, m_size = 0, m_data = Array 0 [None, None, None, None]\<rparr>
     [a, b, c, d] =
   Inr \<lparr>m_reservedSize = 4, m_size = 4, m_data = Array 0 [Some a, Some b, Some c, Some d]\<rparr>"
  by (simp add: Vector_default_def Vector_push_back_def read_reference_def new_array_def
      PTRDIFF_MAX_def replicate_4 and_then_def store_at_def size_t_def)

lemma push_back_five:
  "push_back_all \<lparr>m_reservedSize = 4, m_size = 0, m_data = Array 0 [None, None, None, None]\<rparr>
     [a, b, c, d, e] =
   Inr \<lparr>m_reservedSize = 8, m_size = 5,
        m_data = Array 1 [Some a, Some b, Some c, Some d, Some e, None, None, None]\<rparr>"
  by (simp add: Vector_push_back_def read_reference_def reallocate_def new_array_def
      PTRDIFF_MAX_def replicate_8 and_then_def store_at_def size_t_def)

text \<open>
  Claim C5, at an input where the code departs from it. After four appends the default
  container is full. \<^verbatim>\<open>v.push_back(v[0])\<close> passes a reference to the first element;
  \<^verbatim>\<open>push_back\<close> reallocates, which deletes the array the reference points into, and then
  reads the reference in \<^verbatim>\<open>m_data[m_size] = xi_value\<close>: undefined behaviour, where the
  claim promises a container of length 5 whose last element is 1. (For values held in
  objects outside the container the claim holds, short of a failed allocation:
  \<open>push_back_values\<close>; five such appends, across the growth from capacity 4 to 8:
  \<open>push_back_five\<close>.)
\<close>

theorem push_back_own_element:
  "\<exists>v0 v. Vector_default = Inr v0 \<and> push_back_all v0 [1, 2, 3, 4 :: nat] = Inr v \<and>
      Vector_size v = 4 \<and> Vector_capacity v = 4 \<and>
      Vector_reference v 0 = Element (Pointer 0 0) \<and>
      read_reference (m_data v) (Vector_reference v 0) = Inr 1 \<and>
      reallocate (v\<lparr>m_reservedSize := size_t (int (m_reservedSize v) * 2)\<rparr>) =
        Inr (v\<lparr>m_reservedSize := 8,
               m_data := Array 1 [Some 1, Some 2, Some 3, Some 4, None, None, None, None]\<rparr>) \<and>
      Vector_push_back v (Vector_reference v 0) = Inl (Undefined DanglingPointer)"
proof -
  let ?empty = "\<lparr>m_reservedSize = 4, m_size = 0, m_data = Array 0 [None, None, None, None :: nat cell]\<rparr>"
  let ?full = "\<lparr>m_reservedSize = 4, m_size = 4,
             m_data = Array 0 [Some 1, Some 2, Some 3, Some (4 :: nat)]\<rparr>"
  have built: "Vector_default = Inr ?empty" "push_back_all ?empty [1, 2, 3, 4] = Inr ?full"
    by (rule push_back_four[of 1 2 3 "4 :: nat", THEN conjunct1],
        rule push_back_four[of 1 2 3 "4 :: nat", THEN conjunct2])
  have ref: "Vector_reference ?full 0 = Element (Pointer 0 0)"
    by (simp add: Vector_reference_def Vector_begin_def pointer_plus_def)
  have before: "read_reference (m_data ?full) (Vector_reference ?full 0) = Inr 1"
    by (simp add: Vector_reference_def Vector_begin_def pointer_plus_def read_reference_def
        load_through_def)
  have grown: "reallocate (?full\<lparr>m_reservedSize := size_t (int (m_reservedSize ?full) * 2)\<rparr>) =
      Inr (?full\<lparr>m_reservedSize := 8,
             m_data := Array 1 [Some 1, Some 2, Some 3, Some 4, None, None, None, None]\<rparr>)"
    by (simp add: reallocate_def new_array_def PTRDIFF_MAX_def replicate_8 and_then_def size_t_def)
  have after: "Vector_push_back ?full (Vector_reference ?full 0) = Inl (Undefined DanglingPointer)"
    using grown
    by (simp add: Vector_push_back_def Vector_reference_def Vector_begin_def pointer_plus_def
        read_reference_def load_through_def and_then_def)
  show ?thesis
    using built ref before grown after
    by (intro exI[of _ ?empty] exI[of _ ?full]) (simp add: Vector_size_def Vector_capacity_def)
qed

subsection \<open>Checked access\<close>

lemma load_at_not_out_of_range: "load_at d i \<noteq> Inl out_of_range"
  by (simp add: load_at_def split: storage.splits option.splits)

text \<open>
  Claim C4. \<^verbatim>\<open>at(pos)\<close> throws the out-of-range error exactly when \<open>pos\<close> is not below
  the length; this holds in every state of the container. For a container in a sound
  state with elements \<open>xs\<close> it otherwise returns \<open>xs ! pos\<close>; \<open>Vector_at\<close> is a function of
  the container alone, so the container is not modified. With three elements, \<^verbatim>\<open>at(5)\<close>
  fails and \<^verbatim>\<open>at(2)\<close> returns the third element.
\<close>

theorem at_checked:
  "(Vector_at v pos = Inl out_of_range \<longleftrightarrow> Vector_size v \<le> pos) \<and>
   (holds v xs \<longrightarrow>
      (Vector_at v pos = Inl out_of_range \<longleftrightarrow> length xs \<le> pos) \<and>
      (pos < length xs \<longrightarrow> Vector_at v pos = Inr (xs ! pos))) \<and>
   (holds v [x0, x1, x2] \<longrightarrow> Vector_at v 5 = Inl out_of_range \<and> Vector_at v 2 = Inr x2)"
proof -
  have iff: "Vector_at w p = Inl out_of_range \<longleftrightarrow> Vector_size w \<le> p" for w :: "'a Vector" and p
    using load_at_not_out_of_range[of "m_data w" p] by (auto simp: Vector_at_def Vector_size_def)
  have elem: "Vector_at w p = Inr (ys ! p)" if "holds w ys" "p < length ys"
    for w :: "'a Vector" and p ys
  proof -
    have "m_size w = length ys"
      using that(1) by (auto simp: holds_def split: storage.splits)
    with holds_subscript[OF that] that(2) show ?thesis
      by (simp add: Vector_at_def Vector_subscript_def)
  qed
  have len: "Vector_size w = length ys" if "holds w ys" for w :: "'a Vector" and ys
    using that by (auto simp: holds_def Vector_size_def split: storage.splits)
  show ?thesis
  proof (intro conjI impI)
    show "Vector_at v pos = Inl out_of_range \<longleftrightarrow> Vector_size v \<le> pos" by (rule iff)
  next
    assume "holds v xs"
    then show "Vector_at v pos = Inl out_of_range \<longleftrightarrow> length xs \<le> pos"
      using iff[of v pos] len by simp
  next
    assume "holds v xs" "pos < length xs"
    then show "Vector_at v pos = Inr (xs ! pos)" by (rule elem)
  next
    assume "holds v [x0, x1, x2]"
    then show "Vector_at v 5 = Inl out_of_range" using iff[of v 5] len[of v "[x0, x1, x2]"] by simp
  next
    assume "holds v [x0, x1, x2]"
    then show "Vector_at v 2 = Inr x2" using elem[of v "[x0, x1, x2]" 2] by simp
  qed
qed

theorem at_checked_witness:
  "(\<exists>v0. Vector_default = Inr v0 \<and>
      push_back_all v0 [7, 8, 9 :: nat] =
        Inr \<lparr>m_reservedSize = 4, m_size = 3, m_data = Array 0 [Some 7, Some 8, Some 9, None]\<rparr>) \<and>
   holds \<lparr>m_reservedSize = 4, m_size = 3, m_data = Array 0 [Some 7, Some 8, Some 9, None]\<rparr> [7, 8, 9 :: nat] \<and>
   Vector_at \<lparr>m_reservedSize = 4, m_size = 3, m_data = Array 0 [Some 7, Some 8, Some (9 :: nat), None]\<rparr> 5 = Inl out_of_range \<and>
   Vector_at \<lparr>m_reservedSize = 4, m_size = 3, m_data = Array 0 [Some 7, Some 8, Some (9 :: nat), None]\<rparr> 3 = Inl out_of_range \<and>
   Vector_at \<lparr>m_reservedSize = 4, m_size = 3, m_data = Array 0 [Some 7, Some 8, Some (9 :: nat), None]\<rparr> 2 = Inr 9"
proof -
  let ?v = "\<lparr>m_reservedSize = 4, m_size = 3, m_data = Array 0 [Some 7, Some 8, Some (9 :: nat), None]\<rparr>"
  have h: "holds ?v [7, 8, 9]" by (simp add: holds_def)
  have b: "\<exists>v0. Vector_default = Inr v0 \<and> push_back_all v0 [7, 8, 9 :: nat] = Inr ?v"
    by (simp add: Vector_default_def Vector_push_back_def read_reference_def new_array_def PTRDIFF_MAX_def replicate_4
        and_then_def store_at_def size_t_def)
  from at_checked[of ?v 3 "[7, 8, 9]" 7 8 9] h have "Vector_at ?v 3 = Inl out_of_range" by simp
  moreover from at_checked[of ?v 5 "[7, 8, 9]" 7 8 9] h
  have "Vector_at ?v 5 = Inl out_of_range" "Vector_at ?v 2 = Inr 9" by simp_all
  ultimately show ?thesis using h b by blast
qed

subsection \<open>Reading an element of a node\<close>

lemma subscript_cong:
  "(\<And>a. a \<in> operands e \<Longrightarrow> subscript s (Vec a) i = subscript s' (Vec a) i) \<Longrightarrow>
   subscript s e i = subscript s' e i"
proof (induction e)
  case (Vec a)
  then show ?case by simp
next
  case (BinaryExpression l t r)
  have "subscript s l i = subscript s' l i"
    using BinaryExpression.prems by (intro BinaryExpression.IH(1)) simp
  moreover have "subscript s r i = subscript s' r i"
    using BinaryExpression.prems by (intro BinaryExpression.IH(2)) simp
  ultimately show ?case by simp
qed

lemma subscript_reads_all:
  "subscript s e i = Inr x \<Longrightarrow> a \<in> operands e \<Longrightarrow> \<exists>y. subscript s (Vec a) i = Inr y"
proof (induction e arbitrary: x)
  case (Vec b)
  then show ?case by simp
next
  case (BinaryExpression l t r)
  from BinaryExpression.prems(1) obtain xl xr
    where l: "subscript s l i = Inr xl" and r: "subscript s r i = Inr xr"
    by (auto simp: and_then_def split: sum.splits)
  from BinaryExpression.prems(2) consider "a \<in> operands l" | "a \<in> operands r" by auto
  then show ?case
  proof cases
    case 1
    with l show ?thesis by (rule BinaryExpression.IH(1))
  next
    case 2
    with r show ?thesis by (rule BinaryExpression.IH(2))
  qed
qed

lemma subscript_determined:
  "((\<forall>a\<in>operands e. subscript s (Vec a) i = subscript s' (Vec a) i) \<longrightarrow>
      subscript s e i = subscript s' e i) \<and>
   (subscript s e i = Inr x \<longrightarrow> (\<forall>a\<in>operands e. \<exists>y. subscript s (Vec a) i = Inr y))"
proof (intro conjI impI ballI)
  assume same: "\<forall>a\<in>operands e. subscript s (Vec a) i = subscript s' (Vec a) i"
  show "subscript s e i = subscript s' e i"
    by (rule subscript_cong) (use same in blast)
next
  fix a
  assume "subscript s e i = Inr x" "a \<in> operands e"
  then show "\<exists>y. subscript s (Vec a) i = Inr y"
    by (rule subscript_reads_all)
qed

lemma apply_overloads:
  "BinaryOperations_apply t (Lvalue a) (Lvalue b) = builtin t a b \<and>
   BinaryOperations_apply t (Rvalue a) (Lvalue b) = builtin t a b \<and>
   BinaryOperations_apply t (Rvalue a) (Rvalue b) = builtin t a b \<and>
   BinaryOperations_apply t (Lvalue a) (Rvalue b) =
     (if has_compound_form t then builtin t b a else builtin t a b)"
  by (simp add: compound_assign_def)

text \<open>
  Claim C9, at an input where the code departs from it. With \<open>a = {10}\<close>, \<open>b = {1}\<close> and
  \<open>c = {2}\<close>, \<^verbatim>\<open>a - (b + c)\<close> is the \<open>SUB\<close> node with the container \<open>a\<close> as left and the node
  \<^verbatim>\<open>b + c\<close> as right operand. Reading its element 0 evaluates both operands (10 and 3)
  and calls \<^verbatim>\<open>apply(const T& a, T&& b)\<close>, the right element being a temporary; that
  overload is \<^verbatim>\<open>b -= a\<close>, so the read returns \<open>3 - 10\<close>, which is 4294967289 in
  \<^verbatim>\<open>unsigned int\<close>, where the operation of the tag on the two elements, \<open>10 - 3\<close>, is 7.
  (The other three overloads compute \<^verbatim>\<open>a op b\<close>: \<open>apply_overloads\<close>. That a read keeps no
  cache and depends on the current elements of the operands only holds:
  \<open>subscript_determined\<close>.)
\<close>

theorem subtract_node_reversed:
  "\<exists>n e. Vector_operator op_plus 1 (Vec 2) = Inr n \<and> Vector_operator op_minus 0 n = Inr e \<and>
      e = BinaryExpression (Vec 0) SUB (BinaryExpression (Vec 1) ADD (Vec 2)) \<and>
      subscript
        [0 \<mapsto> \<lparr>m_reservedSize = 4, m_size = 1, m_data = Array 0 [Some 10, None, None, None]\<rparr>,
         1 \<mapsto> \<lparr>m_reservedSize = 4, m_size = 1, m_data = Array 0 [Some 1, None, None, None]\<rparr>,
         2 \<mapsto> \<lparr>m_reservedSize = 4, m_size = 1, m_data = Array 0 [Some 2, None, None, None]\<rparr>]
        (Vec 0) 0 = Inr 10 \<and>
      subscript
        [0 \<mapsto> \<lparr>m_reservedSize = 4, m_size = 1, m_data = Array 0 [Some 10, None, None, None]\<rparr>,
         1 \<mapsto> \<lparr>m_reservedSize = 4, m_size = 1, m_data = Array 0 [Some 1, None, None, None]\<rparr>,
         2 \<mapsto> \<lparr>m_reservedSize = 4, m_size = 1, m_data = Array 0 [Some 2, None, None, None]\<rparr>]
        n 0 = Inr 3 \<and>
      subscript
        [0 \<mapsto> \<lparr>m_reservedSize = 4, m_size = 1, m_data = Array 0 [Some 10, None, None, None]\<rparr>,
         1 \<mapsto> \<lparr>m_reservedSize = 4, m_size = 1, m_data = Array 0 [Some 1, None, None, None]\<rparr>,
         2 \<mapsto> \<lparr>m_reservedSize = 4, m_size = 1, m_data = Array 0 [Some 2, None, None, None]\<rparr>]
        e 0 = Inr 4294967289 \<and>
      builtin SUB 10 3 = Inr 7"
  by (simp add: Vector_operator_def Vector_binary_operators_def Vector_subscript_def load_at_def
      and_then_def has_compound_form_def compound_assign_def)

subsection \<open>Assigning an expression\<close>

lemma written_prefix_step:
  assumes "n < length cells"
  shows "(map f [0..<n] @ drop n cells)[n := f n] = map f [0..<Suc n] @ drop (Suc n) cells"
proof -
  have "drop n cells = cells ! n # drop (Suc n) cells"
    using assms by (simp add: Cons_nth_drop_Suc)
  then show ?thesis by (simp add: list_update_append)
qed

lemma for_each_cells:
  assumes step: "\<And>k cs. k < n \<Longrightarrow> length cs = length cells \<Longrightarrow> cs ! k = cells ! k \<Longrightarrow>
       body k (s(c \<mapsto> vc\<lparr>m_data := Array b cs\<rparr>)) =
       Inr (s(c \<mapsto> vc\<lparr>m_data := Array b (cs[k := Some (r k)])\<rparr>))"
    and n: "n \<le> length cells"
  shows "for_each [0..<n] body (s(c \<mapsto> vc\<lparr>m_data := Array b cells\<rparr>)) =
         Inr (s(c \<mapsto> vc\<lparr>m_data := Array b (map (\<lambda>i. Some (r i)) [0..<n] @ drop n cells)\<rparr>))"
  using assms
proof (induction n)
  case 0
  then show ?case by simp
next
  case (Suc n)
  let ?cs = "map (\<lambda>i. Some (r i)) [0..<n] @ drop n cells"
  have lt: "n < length cells" using Suc.prems(2) by simp
  have IH: "for_each [0..<n] body (s(c \<mapsto> vc\<lparr>m_data := Array b cells\<rparr>)) =
            Inr (s(c \<mapsto> vc\<lparr>m_data := Array b ?cs\<rparr>))"
    using Suc.prems by (intro Suc.IH) simp_all
  have len: "length ?cs = length cells" using lt by simp
  have nth: "?cs ! n = cells ! n" using lt by (simp add: nth_append)
  have "body n (s(c \<mapsto> vc\<lparr>m_data := Array b ?cs\<rparr>)) =
        Inr (s(c \<mapsto> vc\<lparr>m_data := Array b (?cs[n := Some (r n)])\<rparr>))"
    using len nth by (intro Suc.prems(1)) simp_all
  also have "?cs[n := Some (r n)] = map (\<lambda>i. Some (r i)) [0..<Suc n] @ drop (Suc n) cells"
    using lt by (rule written_prefix_step)
  finally have step: "body n (s(c \<mapsto> vc\<lparr>m_data := Array b ?cs\<rparr>)) =
      Inr (s(c \<mapsto> vc\<lparr>m_data := Array b (map (\<lambda>i. Some (r i)) [0..<Suc n] @ drop (Suc n) cells)\<rparr>))" .
  have "[0..<Suc n] = [0..<n] @ [n]" by simp
  then have "for_each [0..<Suc n] body (s(c \<mapsto> vc\<lparr>m_data := Array b cells\<rparr>)) =
      and_then (for_each [0..<n] body (s(c \<mapsto> vc\<lparr>m_data := Array b cells\<rparr>))) (for_each [n] body)"
    by (simp only: for_each_append)
  also have "\<dots> = body n (s(c \<mapsto> vc\<lparr>m_data := Array b ?cs\<rparr>))"
    by (simp only: IH and_then_Inr for_each_single)
  finally show ?case by (simp only: step)
qed

lemma store_self:
  "s c = Some vc \<Longrightarrow> m_data vc = Array b cells \<Longrightarrow> s(c \<mapsto> vc\<lparr>m_data := Array b cells\<rparr>) = s"
  by (auto simp: fun_eq_iff)

lemma subscript_in_loop:
  assumes "length cs = length cells" "cs ! k = cells ! k" "s c = Some vc" "m_data vc = Array b cells"
  shows "subscript (s(c \<mapsto> vc\<lparr>m_data := Array b cs\<rparr>)) e k = subscript s e k"
proof (rule subscript_cong)
  fix a
  show "subscript (s(c \<mapsto> vc\<lparr>m_data := Array b cs\<rparr>)) (Vec a) k = subscript s (Vec a) k"
    using assms by (simp add: Vector_subscript_def load_at_def)
qed

lemma Vector_assign_result:
  assumes c: "s c = Some vc" and d: "m_data vc = Array b cells" and n: "m_size vc \<le> length cells"
    and x: "\<And>i. i < m_size vc \<Longrightarrow> subscript s e i = Inr (x i)"
  shows "Vector_assign s c e =
         Inr (s(c \<mapsto> vc\<lparr>m_data := Array b (map (\<lambda>i. Some (x i)) [0..<m_size vc] @ drop (m_size vc) cells)\<rparr>))"
proof -
  let ?body = "\<lambda>i s'. and_then (subscript s' e i) (assign_element s' c i)"
  have step: "?body k (s(c \<mapsto> vc\<lparr>m_data := Array b cs\<rparr>)) =
       Inr (s(c \<mapsto> vc\<lparr>m_data := Array b (cs[k := Some (x k)])\<rparr>))"
    if "k < m_size vc" "length cs = length cells" "cs ! k = cells ! k" for k cs
  proof -
    have "subscript (s(c \<mapsto> vc\<lparr>m_data := Array b cs\<rparr>)) e k = Inr (x k)"
      using subscript_in_loop[of cs cells k s c vc b e] that(2,3) c d x[OF that(1)] by simp
    moreover have "k < length cs" using that(1,2) n by simp
    ultimately show ?thesis
      by (simp add: and_then_def assign_element_def store_at_def)
  qed
  have "for_each [0..<m_size vc] ?body (s(c \<mapsto> vc\<lparr>m_data := Array b cells\<rparr>)) =
        Inr (s(c \<mapsto> vc\<lparr>m_data := Array b (map (\<lambda>i. Some (x i)) [0..<m_size vc] @ drop (m_size vc) cells)\<rparr>))"
    using step n by (rule for_each_cells)
  then show ?thesis
    by (simp only: store_self[of s c vc b cells, OF c d] Vector_assign_def c option.case)
qed

text \<open>
  Claim C3. Assigning an expression \<open>e\<close> to the container \<open>c\<close> evaluates \<open>e\<close> at the indices
  below the current length of \<open>c\<close> only, whatever the lengths of the operands are, provided
  those elements of \<open>e\<close> can be evaluated. Exactly the cells \<open>0 .. m_size - 1\<close> of \<open>c\<close> are
  written; length, capacity, the array itself (no reallocation) and every cell from
  \<open>m_size\<close> on stay as they were, and so does every other container. When \<open>c\<close> has length
  0 the assignment changes nothing, for every expression.
\<close>

theorem assign_writes_current_length:
  assumes "s c = Some vc"
  shows "(m_size vc = 0 \<longrightarrow> Vector_assign s c e = Inr s) \<and>
     (m_data vc = Array b cells \<and> m_size vc \<le> length cells \<and>
      (\<forall>i<m_size vc. subscript s e i = Inr (x i)) \<longrightarrow>
        (\<exists>vc'. Vector_assign s c e = Inr (s(c \<mapsto> vc')) \<and>
           Vector_size vc' = Vector_size vc \<and> Vector_capacity vc' = Vector_capacity vc \<and>
           m_data vc' = Array b (map (\<lambda>i. Some (x i)) [0..<m_size vc] @ drop (m_size vc) cells) \<and>
           (\<forall>i<m_size vc. Vector_subscript vc' i = Inr (x i)) \<and>
           (\<forall>i. m_size vc \<le> i \<longrightarrow> Vector_subscript vc' i = Vector_subscript vc i)))"
proof (intro conjI impI)
  assume "m_size vc = 0"
  then show "Vector_assign s c e = Inr s"
    using assms by (simp add: Vector_assign_def)
next
  assume h: "m_data vc = Array b cells \<and> m_size vc \<le> length cells \<and>
      (\<forall>i<m_size vc. subscript s e i = Inr (x i))"
  define n where "n = m_size vc"
  define cells' where "cells' = map (\<lambda>i. Some (x i)) [0..<n] @ drop n cells"
  let ?vc' = "vc\<lparr>m_data := Array b cells'\<rparr>"
  have d: "m_data vc = Array b cells" and le: "n \<le> length cells"
    and x: "\<And>i. i < m_size vc \<Longrightarrow> subscript s e i = Inr (x i)"
    using h by (simp_all add: n_def)
  have "Vector_assign s c e = Inr (s(c \<mapsto> ?vc'))"
    unfolding cells'_def n_def using assms d le[unfolded n_def] x by (rule Vector_assign_result)
  moreover have len: "length cells' = length cells" using le by (simp add: cells'_def)
  have "Vector_subscript ?vc' i = Inr (x i)" if "i < n" for i
    using that le len by (simp add: Vector_subscript_def load_at_def) (simp add: cells'_def nth_append)
  moreover have "Vector_subscript ?vc' i = Vector_subscript vc i" if "n \<le> i" for i
  proof (cases "i < length cells")
    case True
    then have "cells' ! i = cells ! i" using that le by (simp add: cells'_def nth_append)
    then show ?thesis using True len d by (simp add: Vector_subscript_def load_at_def)
  next
    case False
    then show ?thesis using len d by (simp add: Vector_subscript_def load_at_def)
  qed
  ultimately show "\<exists>vc'. Vector_assign s c e = Inr (s(c \<mapsto> vc')) \<and>
           Vector_size vc' = Vector_size vc \<and> Vector_capacity vc' = Vector_capacity vc \<and>
           m_data vc' = Array b (map (\<lambda>i. Some (x i)) [0..<m_size vc] @ drop (m_size vc) cells) \<and>
           (\<forall>i<m_size vc. Vector_subscript vc' i = Inr (x i)) \<and>
           (\<forall>i. m_size vc \<le> i \<longrightarrow> Vector_subscript vc' i = Vector_subscript vc i)"
    by (intro exI[of _ ?vc']) (simp add: Vector_size_def Vector_capacity_def cells'_def n_def)
qed

theorem assign_writes_current_length_witness:
  "Vector_assign
     [0 \<mapsto> \<lparr>m_reservedSize = 4, m_size = 3, m_data = Array 0 [Some 1, Some 2, Some 3, None]\<rparr>,
      1 \<mapsto> \<lparr>m_reservedSize = 4, m_size = 3, m_data = Array 0 [Some 10, Some 20, Some 30, None]\<rparr>,
      2 \<mapsto> \<lparr>m_reservedSize = 4, m_size = 2, m_data = Array 0 [Some 0, Some 0, Some 77, None]\<rparr>]
     2 (BinaryExpression (Vec 0) ADD (Vec 1)) =
   Inr
     [0 \<mapsto> \<lparr>m_reservedSize = 4, m_size = 3, m_data = Array 0 [Some 1, Some 2, Some 3, None]\<rparr>,
      1 \<mapsto> \<lparr>m_reservedSize = 4, m_size = 3, m_data = Array 0 [Some 10, Some 20, Some 30, None]\<rparr>,
      2 \<mapsto> \<lparr>m_reservedSize = 4, m_size = 2, m_data = Array 0 [Some 11, Some 22, Some 77, None]\<rparr>] \<and>
   Vector_assign
     [0 \<mapsto> \<lparr>m_reservedSize = 4, m_size = 3, m_data = Array 0 [Some 1, Some 2, Some 3, None]\<rparr>,
      2 \<mapsto> \<lparr>m_reservedSize = 4, m_size = 0, m_data = nullptr\<rparr>]
     2 (BinaryExpression (Vec 0) ADD (Vec 1)) =
   Inr
     [0 \<mapsto> \<lparr>m_reservedSize = 4, m_size = 3, m_data = Array 0 [Some 1, Some 2, Some 3, None]\<rparr>,
      2 \<mapsto> \<lparr>m_reservedSize = 4, m_size = 0, m_data = nullptr\<rparr>]"
proof -
  let ?A = "\<lparr>m_reservedSize = 4, m_size = 3, m_data = Array 0 [Some (1 :: unsigned), Some 2, Some 3, None]\<rparr>"
  let ?B = "\<lparr>m_reservedSize = 4, m_size = 3, m_data = Array 0 [Some (10 :: unsigned), Some 20, Some 30, None]\<rparr>"
  let ?C = "\<lparr>m_reservedSize = 4, m_size = 2, m_data = Array 0 [Some (0 :: unsigned), Some 0, Some 77, None]\<rparr>"
  let ?Z = "\<lparr>m_reservedSize = 4, m_size = 0, m_data = nullptr :: unsigned storage\<rparr>"
  let ?E = "BinaryExpression (Vec 0) ADD (Vec 1)"
  have "Vector_assign [0 \<mapsto> ?A, 2 \<mapsto> ?Z] 2 ?E = Inr [0 \<mapsto> ?A, 2 \<mapsto> ?Z]"
    using assign_writes_current_length[of "[0 \<mapsto> ?A, 2 \<mapsto> ?Z]" 2 ?Z ?E] by simp
  moreover
  let ?S = "[0 \<mapsto> ?A, 1 \<mapsto> ?B, 2 \<mapsto> ?C] :: store"
  let ?cells = "[Some (0 :: unsigned), Some 0, Some 77, None]"
  have sc: "?S (2 :: addr) = Some ?C" by simp
  have hyp: "m_data ?C = Array 0 ?cells \<and> m_size ?C \<le> length ?cells \<and>
      (\<forall>i<m_size ?C. subscript ?S ?E i = Inr ([11, 22] ! i))"
    by (simp add: all_less_2 and_then_def Vector_subscript_def load_at_def)
  from assign_writes_current_length[of ?S 2 ?C ?E 0 ?cells "\<lambda>i. [11, 22] ! i", OF sc,
      THEN conjunct2, THEN mp, OF hyp]
  obtain vc' where r: "Vector_assign ?S 2 ?E = Inr (?S(2 \<mapsto> vc'))"
    and f: "Vector_size vc' = Vector_size ?C" "Vector_capacity vc' = Vector_capacity ?C"
      "m_data vc' = Array 0 (map (\<lambda>i. Some ([11, 22] ! i)) [0..<m_size ?C] @ drop (m_size ?C) ?cells)"
    by blast
  have "vc' = \<lparr>m_reservedSize = 4, m_size = 2, m_data = Array 0 [Some 11, Some 22, Some 77, None]\<rparr>"
    using f by (cases vc') (simp add: Vector_size_def Vector_capacity_def upt_rec)
  with r have "Vector_assign ?S 2 ?E =
      Inr [0 \<mapsto> ?A, 1 \<mapsto> ?B, 2 \<mapsto> \<lparr>m_reservedSize = 4, m_size = 2, m_data = Array 0 [Some 11, Some 22, Some 77, None]\<rparr>]"
    by simp
  ultimately show ?thesis by simp
qed

subsection \<open>The scenario \<^verbatim>\<open>c = a + b; c += a\<close>\<close>

lemma Vector_compound_assign_result:
  assumes c: "s c = Some vc" and d: "m_data vc = Array b cells" and n: "m_size vc \<le> length cells"
    and y: "\<And>i. i < m_size vc \<Longrightarrow> subscript s e i = Inr (y i)"
    and x: "\<And>i. i < m_size vc \<Longrightarrow> cells ! i = Some (x i)"
    and z: "\<And>i. i < m_size vc \<Longrightarrow> compound_assign t (x i) (y i) = Inr (z i)"
  shows "Vector_compound_assign t s c e =
         Inr (s(c \<mapsto> vc\<lparr>m_data := Array b (map (\<lambda>i. Some (z i)) [0..<m_size vc] @ drop (m_size vc) cells)\<rparr>))"
proof -
  let ?body = "\<lambda>i s'. and_then (subscript s' e i) (compound_element t s' c i)"
  have step: "?body k (s(c \<mapsto> vc\<lparr>m_data := Array b cs\<rparr>)) =
       Inr (s(c \<mapsto> vc\<lparr>m_data := Array b (cs[k := Some (z k)])\<rparr>))"
    if "k < m_size vc" "length cs = length cells" "cs ! k = cells ! k" for k cs
  proof -
    have "subscript (s(c \<mapsto> vc\<lparr>m_data := Array b cs\<rparr>)) e k = Inr (y k)"
      using subscript_in_loop[of cs cells k s c vc b e] that(2,3) c d y[OF that(1)] by simp
    moreover have "k < length cs" using that(1,2) n by simp
    moreover have "cs ! k = Some (x k)" using that(3) x[OF that(1)] by simp
    ultimately show ?thesis
      using z[OF that(1)]
      by (simp add: and_then_def compound_element_def store_at_def load_at_def)
  qed
  have "for_each [0..<m_size vc] ?body (s(c \<mapsto> vc\<lparr>m_data := Array b cells\<rparr>)) =
        Inr (s(c \<mapsto> vc\<lparr>m_data := Array b (map (\<lambda>i. Some (z i)) [0..<m_size vc] @ drop (m_size vc) cells)\<rparr>))"
    using step n by (rule for_each_cells)
  then show ?thesis
    by (simp only: store_self[of s c vc b cells, OF c d] Vector_compound_assign_def c option.case)
qed

lemma Vector_n_3:
  "Vector_n 3 = Inr \<lparr>m_reservedSize = 6, m_size = 3,
                      m_data = Array 0 [Some 0, Some 0, Some 0, None, None, None]\<rparr>"
  by (simp add: Vector_n_def size_t_def new_array_def PTRDIFF_MAX_def replicate_6 and_then_def
      store_at_def upt_rec)

lemma holds_Vec:
  "s a = Some va \<Longrightarrow> holds va xs \<Longrightarrow> i < length xs \<Longrightarrow> subscript s (Vec a) i = Inr (xs ! i)"
  by (simp add: holds_subscript)

text \<open>
  Claim C1. Let \<open>a\<close> hold \<open>{1,2,3}\<close>, \<open>b\<close> hold \<open>{10,20,30}\<close> and \<open>c\<close> be constructed
  with size 3. Then \<^verbatim>\<open>a + b\<close> is a well-formed node, assigning it to \<open>c\<close> leaves \<open>c\<close>
  holding \<open>{11,22,33}\<close>, and \<^verbatim>\<open>c += a\<close> then leaves it holding \<open>{12,24,36}\<close>.
\<close>

theorem sum_then_add_assign:
  assumes a: "s a = Some va" "holds va [1, 2, 3]"
    and b: "s b = Some vb" "holds vb [10, 20, 30]"
    and c: "s c = Some vc" "Vector_n 3 = Inr vc"
  shows "\<exists>e s1 v1 s2 v2.
           Vector_operator op_plus a (Vec b) = Inr e \<and>
           Vector_assign s c e = Inr s1 \<and> s1 c = Some v1 \<and> holds v1 [11, 22, 33] \<and>
           Vector_add_assign s1 c (Vec a) = Inr s2 \<and> s2 c = Some v2 \<and> holds v2 [12, 24, 36]"
proof -
  let ?e = "BinaryExpression (Vec a) ADD (Vec b)"
  let ?cells = "[Some (0 :: unsigned), Some 0, Some 0, None, None, None]"
  have vc: "vc = \<lparr>m_reservedSize = 6, m_size = 3, m_data = Array 0 ?cells\<rparr>"
    using c(2) by (simp add: Vector_n_3)
  have ac: "a \<noteq> c"
  proof
    assume "a = c"
    with a c(1) have "holds vc [1, 2, 3]" by simp
    then show False by (simp add: vc holds_def)
  qed
  have op: "Vector_operator op_plus a (Vec b) = Inr ?e"
    by (simp add: Vector_operator_def Vector_binary_operators_def)
  define x :: "nat \<Rightarrow> unsigned" where "x = (\<lambda>i. [1, 2, 3] ! i + [10, 20, 30] ! i)"
  have ex: "subscript s ?e i = Inr (x i)" if "i < m_size vc" for i
    using that holds_Vec[of s a va _ i, OF a] holds_Vec[of s b vb _ i, OF b]
    by (simp add: vc and_then_def x_def)
  let ?c1 = "[Some (11 :: unsigned), Some 22, Some 33, None, None, None]"
  let ?v1 = "vc\<lparr>m_data := Array 0 ?c1\<rparr>"
  have "map (\<lambda>i. Some (x i)) [0..<m_size vc] @ drop (m_size vc) ?cells = ?c1"
    by (simp add: vc x_def upt_rec)
  with Vector_assign_result[of s c vc 0 ?cells ?e x, OF c(1) _ _ ex]
  have s1: "Vector_assign s c ?e = Inr (s(c \<mapsto> ?v1))"
    by (simp add: vc)
  have h1: "holds ?v1 [11, 22, 33]" by (simp add: vc holds_def)
  let ?s1 = "s(c \<mapsto> ?v1)"
  define y :: "nat \<Rightarrow> unsigned" where "y = (\<lambda>i. [1, 2, 3] ! i)"
  define w :: "nat \<Rightarrow> unsigned" where "w = (\<lambda>i. [11, 22, 33] ! i)"
  define z :: "nat \<Rightarrow> unsigned" where "z = (\<lambda>i. [12, 24, 36] ! i)"
  have a1: "?s1 a = Some va" using a(1) ac by simp
  have ey: "subscript ?s1 (Vec a) i = Inr (y i)" if "i < m_size ?v1" for i
    using that holds_Vec[of ?s1 a va _ i, OF a1 a(2)] by (simp add: vc y_def)
  have ew: "?c1 ! i = Some (w i)" if "i < m_size ?v1" for i
    using that by (auto simp: vc w_def less_Suc_eq numeral_3_eq_3 numeral_2_eq_2)
  have ez: "compound_assign ADD (w i) (y i) = Inr (z i)" if "i < m_size ?v1" for i
    using that by (auto simp: vc w_def y_def z_def compound_assign_def less_Suc_eq numeral_3_eq_3 numeral_2_eq_2)
  let ?c2 = "[Some (12 :: unsigned), Some 24, Some 36, None, None, None]"
  let ?v2 = "?v1\<lparr>m_data := Array 0 ?c2\<rparr>"
  have "map (\<lambda>i. Some (z i)) [0..<m_size ?v1] @ drop (m_size ?v1) ?c1 = ?c2"
    by (simp add: vc z_def upt_rec)
  with Vector_compound_assign_result[of ?s1 c ?v1 0 ?c1 "Vec a" y w ADD z, OF _ _ _ ey ew ez]
  have s2: "Vector_add_assign ?s1 c (Vec a) = Inr (?s1(c \<mapsto> ?v2))"
    by (simp add: vc Vector_add_assign_def)
  have h2: "holds ?v2 [12, 24, 36]" by (simp add: vc holds_def)
  show ?thesis
    using op s1 h1 s2 h2 by (intro exI[of _ ?e] exI[of _ ?s1] exI[of _ ?v1] exI[of _ "?s1(c \<mapsto> ?v2)"] exI[of _ ?v2]) simp
qed

theorem sum_then_add_assign_witness:
  "(\<exists>v0. Vector_default = Inr v0 \<and>
      push_back_all v0 [1, 2, 3] =
        Inr \<lparr>m_reservedSize = 4, m_size = 3, m_data = Array 0 [Some (1 :: unsigned), Some 2, Some 3, None]\<rparr>) \<and>
   (\<exists>v0. Vector_default = Inr v0 \<and>
      push_back_all v0 [10, 20, 30] =
        Inr \<lparr>m_reservedSize = 4, m_size = 3, m_data = Array 0 [Some (10 :: unsigned), Some 20, Some 30, None]\<rparr>) \<and>
   (\<exists>e s1 v1 s2 v2.
      Vector_operator op_plus 0 (Vec 1) = Inr e \<and>
      Vector_assign
        [0 \<mapsto> \<lparr>m_reservedSize = 4, m_size = 3, m_data = Array 0 [Some 1, Some 2, Some 3, None]\<rparr>,
         1 \<mapsto> \<lparr>m_reservedSize = 4, m_size = 3, m_data = Array 0 [Some 10, Some 20, Some 30, None]\<rparr>,
         2 \<mapsto> \<lparr>m_reservedSize = 6, m_size = 3, m_data = Array 0 [Some 0, Some 0, Some 0, None, None, None]\<rparr>]
        2 e = Inr s1 \<and>
      s1 2 = Some v1 \<and> holds v1 [11, 22, 33] \<and>
      Vector_add_assign s1 2 (Vec 0) = Inr s2 \<and> s2 2 = Some v2 \<and> holds v2 [12, 24, 36])"
proof -
  let ?A = "\<lparr>m_reservedSize = 4, m_size = 3, m_data = Array 0 [Some (1 :: unsigned), Some 2, Some 3, None]\<rparr>"
  let ?B = "\<lparr>m_reservedSize = 4, m_size = 3, m_data = Array 0 [Some (10 :: unsigned), Some 20, Some 30, None]\<rparr>"
  let ?C = "\<lparr>m_reservedSize = 6, m_size = 3, m_data = Array 0 [Some (0 :: unsigned), Some 0, Some 0, None, None, None]\<rparr>"
  let ?S = "[0 \<mapsto> ?A, 1 \<mapsto> ?B, 2 \<mapsto> ?C] :: store"
  have pa: "\<exists>v0. Vector_default = Inr v0 \<and> push_back_all v0 [1, 2, 3] = Inr ?A"
    by (simp add: Vector_default_def Vector_push_back_def read_reference_def new_array_def PTRDIFF_MAX_def replicate_4
        and_then_def store_at_def size_t_def)
  have pb: "\<exists>v0. Vector_default = Inr v0 \<and> push_back_all v0 [10, 20, 30] = Inr ?B"
    by (simp add: Vector_default_def Vector_push_back_def read_reference_def new_array_def PTRDIFF_MAX_def replicate_4
        and_then_def store_at_def size_t_def)
  have a: "?S 0 = Some ?A" "holds ?A [1, 2, 3]" by (simp_all add: holds_def)
  have b: "?S 1 = Some ?B" "holds ?B [10, 20, 30]" by (simp_all add: holds_def)
  have c: "?S 2 = Some ?C" "Vector_n 3 = Inr ?C" by (simp_all add: Vector_n_3)
  from sum_then_add_assign[of ?S 0 ?A 1 ?B 2 ?C, OF a b c] pa pb show ?thesis by blast
qed

subsection \<open>Constructing a container from an expression\<close>

text \<open>
  Claim C10. The constructor taking an expression produces a container of length 0 and
  evaluates no element of the expression: the result is the same for every expression
  and every store, also where each element of the expression is a fault. (The new
  container's \<open>m_data\<close> is left uninitialised.)
\<close>

theorem expression_constructor_empty:
  "Vector_expression s this e =
     Inr (s(this \<mapsto> \<lparr>m_reservedSize = 4, m_size = 0, m_data = wild\<rparr>)) \<and>
   (\<exists>s' v. Vector_expression s this e = Inr s' \<and> s' this = Some v \<and> Vector_size v = 0 \<and>
      (\<forall>a. a \<noteq> this \<longrightarrow> s' a = s a))"
  by (simp add: Vector_expression_def Vector_size_def)

theorem expression_constructor_empty_witness:
  "(\<forall>i. subscript Map.empty (BinaryExpression (Vec 0) ADD (Vec 1)) i = Inl (Undefined DanglingReference)) \<and>
   Vector_expression Map.empty 2 (BinaryExpression (Vec 0) ADD (Vec 1)) =
     Inr [2 \<mapsto> \<lparr>m_reservedSize = 4, m_size = 0, m_data = wild\<rparr>]"
  using expression_constructor_empty[of Map.empty 2 "BinaryExpression (Vec 0) ADD (Vec 1)"]
  by (simp add: and_then_def)

subsection \<open>The binary operators of a container\<close>

lemma Vector_operator_elementwise:
  assumes "token \<in> {op_plus, op_minus, op_times, op_divide, op_bitxor, op_shl, op_shr,
                      op_eq, op_neq, op_lt, op_le, op_gt, op_ge}"
    and "s a = Some va" "s b = Some vb"
    and "Vector_subscript va i = Inr x" "Vector_subscript vb i = Inr y"
  shows "\<exists>t. xi_operator t = token \<and>
           Vector_operator token a (Vec b) = Inr (BinaryExpression (Vec a) t (Vec b)) \<and>
           subscript s (BinaryExpression (Vec a) t (Vec b)) i = builtin t x y"
proof -
  have "\<exists>t. xi_operator t = token \<and>
         Vector_operator token a (Vec b) = Inr (BinaryExpression (Vec a) t (Vec b))"
    using assms(1)
    by (auto simp: Vector_operator_def Vector_binary_operators_def
        intro: exI[of _ ADD] exI[of _ SUB] exI[of _ MUL] exI[of _ DIV] exI[of _ LXOR]
          exI[of _ SHL] exI[of _ SHR] exI[of _ EQ] exI[of _ NEQ] exI[of _ LT] exI[of _ LE]
          exI[of _ GT] exI[of _ GE])
  moreover have "subscript s (BinaryExpression (Vec a) t (Vec b)) i = builtin t x y" for t
    using assms(2-5) by (simp add: and_then_def)
  ultimately show ?thesis by blast
qed

text \<open>
  Claim C2, at the inputs where the code departs from it. \<^verbatim>\<open>Vector\<close> declares no binary
  \<^verbatim>\<open>operator|\<close>: the template returning the \<open>LOR\<close> node is declared as a second
  \<^verbatim>\<open>operator&\<close>. So \<^verbatim>\<open>a | b\<close> has no matching operator and \<^verbatim>\<open>a & b\<close> is ambiguous
  between the \<open>LAND\<close> and the \<open>LOR\<close> template; neither expression yields a node, although
  \<open>LOR\<close> is the tag of \<^verbatim>\<open>|\<close> and \<open>LAND\<close> the tag of \<^verbatim>\<open>&\<close>. (For the other thirteen
  operators the claim holds: \<open>Vector_operator_elementwise\<close>.)
\<close>

theorem bitwise_or_and_forms:
  "Vector_operator op_bitor a re = Inl no_matching_operator \<and>
   Vector_operator op_bitand a re = Inl ambiguous_overload \<and>
   xi_operator LOR = op_bitor \<and> xi_operator LAND = op_bitand"
  by (simp add: Vector_operator_def Vector_binary_operators_def)

subsection \<open>Capacity and length\<close>

text \<open>
  Claim C6, at an input where the code departs from it. A container constructed with
  size 0 has capacity 0. \<^verbatim>\<open>push_back\<close> finds it full and doubles the capacity, which
  stays 0; the reallocated array has no cell, and the write to \<^verbatim>\<open>m_data[0]\<close> is outside
  it.
\<close>

theorem push_back_on_zero_capacity:
  "\<exists>v. Vector_n 0 = Inr v \<and> Vector_size v = 0 \<and> Vector_capacity v = 0 \<and>
      m_data v = Array 0 [] \<and>
      reallocate (v\<lparr>m_reservedSize := size_t (int (m_reservedSize v) * 2)\<rparr>) =
        Inr (v\<lparr>m_data := Array 1 []\<rparr>) \<and>
      Vector_push_back v (Outside x) = Inl (Undefined OutOfBounds)"
  by (simp add: Vector_n_def size_t_def new_array_def PTRDIFF_MAX_def and_then_def
      Vector_size_def Vector_capacity_def reallocate_def Vector_push_back_def
      read_reference_def store_at_def)

subsection \<open>Insertion followed by erasure\<close>

lemma insert_erase_without_growth:
  assumes h: "holds v xs" and room: "m_size v \<noteq> m_reservedSize v"
    and cap: "m_reservedSize v \<le> PTRDIFF_MAX" and p: "p \<le> length xs"
  shows "\<exists>v1 it v2 it'.
           Vector_insert v (pointer_plus (Vector_begin v) p) (Outside x) = Inr (v1, it) \<and>
           holds v1 (take p xs @ x # drop p xs) \<and>
           it = pointer_plus (Vector_begin v1) p \<and>
           Vector_erase v1 it = Inr (v2, it') \<and> holds v2 xs \<and>
           Vector_capacity v2 = Vector_capacity v"
proof -
  define ys zs where "ys = take p xs" and "zs = drop p xs"
  have xs: "xs = ys @ zs" and ly: "length ys = p" using p by (simp_all add: ys_def zs_def)
  from h obtain b cells where d: "m_data v = Array b cells"
    and c: "length cells = m_reservedSize v" and s: "m_size v = length xs"
    and l: "length xs \<le> length cells" and t: "take (length xs) cells = map Some xs"
    by (auto simp: holds_def split: storage.splits)
  have "length xs < length cells" using room c s l by simp
  then obtain r rest where dr: "drop (length xs) cells = r # rest"
    by (cases "drop (length xs) cells") auto
  have "take (length xs) cells @ drop (length xs) cells = cells" by (rule append_take_drop_id)
  then have "map Some xs @ r # rest = cells" by (simp only: t dr)
  then have cells: "cells = map Some ys @ map Some zs @ r # rest"
    by (simp add: xs)
  have len: "length cells = p + length zs + Suc (length rest)"
    by (simp add: cells ly)
  have small: "length xs < 2 ^ 64" "Suc (length xs) < 2 ^ 64"
    using l c cap \<open>length xs < length cells\<close> by (simp_all add: PTRDIFF_MAX_def)
  have n1: "size_t (int (length xs) - int p) = length zs"
    using size_t_diff[OF p small(1)] by (simp add: xs ly)
  have n2: "size_t (int (length xs) + 1) = Suc (length xs)"
    using l c cap by (intro size_t_Suc) simp
  have n3: "size_t (int (Suc (length xs)) - int p - 1) = length zs"
  proof -
    have "int (Suc (length xs)) - int p - 1 = int (length zs)" using ly by (simp add: xs)
    moreover have "length zs < 2 ^ 64" using small(1) by (simp add: xs)
    ultimately show ?thesis by (simp only: size_t_id)
  qed
  have n4: "size_t (int (Suc (length xs)) - 1) = length xs"
  proof -
    have "int (Suc (length xs)) - 1 = int (length xs)" by simp
    then show ?thesis using small(1) by (simp only: size_t_id)
  qed
  let ?cells1 = "map Some ys @ Some x # map Some zs @ rest"
  let ?v1 = "v\<lparr>m_data := Array b ?cells1, m_size := Suc (length xs)\<rparr>"
  let ?cells2 = "map Some ys @ map Some zs @ (if zs = [] then Some x else Some (last zs)) # rest"
  have mm: "memmove (Array b cells) (Pointer b (Suc p)) (Pointer b p) (length zs) =
            Inr (Array b (map Some ys @ (if zs = [] then r else Some (hd zs)) # map Some zs @ rest))"
    by (cases zs) (simp_all add: memmove_def cells ly)
  have ins: "Vector_insert v (pointer_plus (Vector_begin v) p) (Outside x) = Inr (?v1, Pointer b p)"
    using room d s len n1 n2 mm
    by (simp add: Vector_insert_def Vector_begin_def pointer_plus_def pointer_diff_def
        address_of_def and_then_def cells[symmetric] store_through_def read_reference_def)
       (simp add: cells ly list_update_append)
  have h1: "holds ?v1 (take p xs @ x # drop p xs)"
    using c len by (simp add: holds_def ys_def[symmetric] zs_def[symmetric] xs ly)
  have dl: "drop (length zs) (Some x # map Some zs @ rest) =
            (if zs = [] then Some x else Some (last zs)) # rest"
  proof (cases zs rule: rev_cases)
    case Nil
    then show ?thesis by simp
  next
    case (snoc as a)
    then show ?thesis by (simp add: drop_Cons')
  qed
  have mm2: "memmove (Array b ?cells1) (Pointer b p) (Pointer b (Suc p)) (length zs) =
             Inr (Array b ?cells2)"
    using dl by (simp add: memmove_def ly)
  let ?v2 = "v\<lparr>m_data := Array b ?cells2, m_size := length xs\<rparr>"
  have er: "Vector_erase ?v1 (Pointer b p) = Inr (?v2, Pointer b p)"
    using n3 n4 mm2
    by (simp add: Vector_erase_def pointer_plus_def pointer_diff_def address_of_def and_then_def ly)
  have h2: "holds ?v2 xs"
    using c len by (simp add: holds_def xs ly)
  have "Pointer b p = pointer_plus (Vector_begin ?v1) p"
    by (simp add: Vector_begin_def pointer_plus_def)
  with ins h1 er h2 show ?thesis
    by (intro exI[of _ ?v1] exI[of _ "Pointer b p"] exI[of _ ?v2]) (simp add: Vector_capacity_def)
qed

lemma insert_with_growth_fails:
  assumes h: "holds v xs" and full: "m_size v = m_reservedSize v"
    and cap: "m_reservedSize v \<le> PTRDIFF_MAX" and p: "p \<le> length xs"
  shows "Vector_insert v (pointer_plus (Vector_begin v) p) r = Inl bad_alloc \<or>
         Vector_insert v (pointer_plus (Vector_begin v) p) r = Inl (Undefined DanglingPointer)"
proof -
  from h obtain b cells where d: "m_data v = Array b cells"
    and c: "length cells = m_reservedSize v" and s: "m_size v = length xs"
    by (auto simp: holds_def split: storage.splits)
  have "length xs \<le> PTRDIFF_MAX" using cap full s by simp
  then have dbl: "size_t (int (length xs) * 2) = 2 * length xs"
    by (rule size_t_double)
  have pl: "p \<le> length cells" using p full c s by simp
  show ?thesis
    using d c s full pl
    by (simp add: Vector_insert_def Vector_begin_def pointer_plus_def pointer_diff_def
        address_of_def and_then_def dbl reallocate_def new_array_def)
qed

text \<open>
  Claim C7, at an input where the code departs from it. After four appends the default
  container is full. \<^verbatim>\<open>insert\<close> at position 1 computes its iterator \<open>iit\<close> from the old
  array, reallocates, and then uses \<open>iit\<close> and \<^verbatim>\<open>xi_iterator - m_data\<close> against the new
  array: the insertion is undefined behaviour and no sequence is restored. (Without
  growth the round trip holds: \<open>insert_erase_without_growth\<close>; with growth it never
  succeeds: \<open>insert_with_growth_fails\<close>.)
\<close>

theorem insert_with_growth:
  "\<exists>v0 v. Vector_default = Inr v0 \<and> push_back_all v0 [1, 2, 3, 4 :: nat] = Inr v \<and>
      Vector_size v = 4 \<and> Vector_capacity v = 4 \<and>
      Vector_insert v (pointer_plus (Vector_begin v) 1) (Outside 9) =
        Inl (Undefined DanglingPointer)"
  by (simp add: Vector_default_def Vector_push_back_def read_reference_def new_array_def PTRDIFF_MAX_def replicate_4 replicate_8
      and_then_def store_at_def size_t_def Vector_size_def Vector_capacity_def
      Vector_insert_def Vector_begin_def pointer_plus_def pointer_diff_def address_of_def
      reallocate_def)

subsection \<open>The initializer-list constructor and the move constructor\<close>

lemma initializer_list_loop:
  fixes cells :: "'a cell list"
  assumes "k + length ys \<le> length cells" "length cells \<le> PTRDIFF_MAX"
  shows "for_each ys
           (\<lambda>item v. and_then (store_at (m_data v) (m_size v) item) (\<lambda>d.
              Inr (v\<lparr>m_data := d, m_size := size_t (int (m_size v) + 1)\<rparr>)))
           \<lparr>m_reservedSize = c, m_size = k, m_data = Array 0 cells\<rparr> =
         Inr \<lparr>m_reservedSize = c, m_size = k + length ys,
              m_data = Array 0 (take k cells @ map Some ys @ drop (k + length ys) cells)\<rparr>"
  using assms
proof (induction ys arbitrary: k cells)
  case Nil
  then show ?case by simp
next
  case (Cons y ys)
  have k: "k < length cells" using Cons.prems(1) by simp
  have sz: "size_t (int k + 1) = Suc k"
    using k Cons.prems(2) by (intro size_t_Suc) simp
  have IH: "for_each ys
           (\<lambda>item v. and_then (store_at (m_data v) (m_size v) item) (\<lambda>d.
              Inr (v\<lparr>m_data := d, m_size := size_t (int (m_size v) + 1)\<rparr>)))
           \<lparr>m_reservedSize = c, m_size = Suc k, m_data = Array 0 (cells[k := Some y])\<rparr> =
         Inr \<lparr>m_reservedSize = c, m_size = Suc k + length ys,
              m_data = Array 0 (take (Suc k) (cells[k := Some y]) @ map Some ys @
                                 drop (Suc k + length ys) (cells[k := Some y]))\<rparr>"
    using Cons.prems by (intro Cons.IH) simp_all
  have "take (Suc k) (cells[k := Some y]) = take k cells @ [Some y]"
    using k by (simp add: take_Suc_conv_app_nth)
  then show ?case
    using k sz IH by (simp add: and_then_def store_at_def)
qed

lemma initializer_list_doubles_size:
  assumes "2 * length xs \<le> PTRDIFF_MAX"
  shows "Vector_initializer_list xs =
         Inr \<lparr>m_reservedSize = 2 * length xs, m_size = 2 * length xs,
              m_data = Array 0 (replicate (length xs) None @ map Some xs)\<rparr>"
proof -
  have cap: "size_t (2 * int (length xs)) = 2 * length xs"
    using assms size_t_double[of "length xs"] by (simp add: mult.commute)
  have "for_each xs
           (\<lambda>item v. and_then (store_at (m_data v) (m_size v) item) (\<lambda>d.
              Inr (v\<lparr>m_data := d, m_size := size_t (int (m_size v) + 1)\<rparr>)))
           \<lparr>m_reservedSize = 2 * length xs, m_size = length xs,
            m_data = Array 0 (replicate (2 * length xs) None)\<rparr> =
         Inr \<lparr>m_reservedSize = 2 * length xs, m_size = length xs + length xs,
              m_data = Array 0 (take (length xs) (replicate (2 * length xs) None) @ map Some xs @
                                 drop (length xs + length xs) (replicate (2 * length xs) None))\<rparr>"
    using assms by (intro initializer_list_loop) simp_all
  then show ?thesis
    using assms by (simp add: Vector_initializer_list_def cap new_array_def and_then_def)
qed

lemma move_loop:
  fixes src :: "'a cell list"
  assumes "take n src = map Some xs" "length xs = n" "n \<le> length dst" "k \<le> n"
  shows "for_each [0..<k]
           (\<lambda>i d. and_then (load_at (Array b src) i) (\<lambda>x. store_at d i x)) (Array 0 dst) =
         Inr (Array 0 (map Some (take k xs) @ drop k dst))"
  using assms(4)
proof (induction k)
  case 0
  then show ?case by simp
next
  case (Suc k)
  have k: "k < n" using Suc.prems by simp
  have "src ! k = take n src ! k" using k by simp
  then have src: "src ! k = Some (xs ! k)" using k assms(1,2) by simp
  have ls: "k < length src" using k assms(1,2) by (metis length_map length_take min_less_iff_conj)
  have ld: "k < length dst" using k assms(3) by simp
  have ld': "k < length (map Some (take k xs) @ drop k dst)"
    using k ld assms(2) by simp
  have upd: "(map Some (take k xs) @ drop k dst)[k := Some (xs ! k)] =
             map Some (take (Suc k) xs) @ drop (Suc k) dst"
    using k ld assms(2)
    by (simp add: list_update_append take_Suc_conv_app_nth Cons_nth_drop_Suc[symmetric])
  have "[0..<Suc k] = [0..<k] @ [k]" by simp
  then have "for_each [0..<Suc k]
           (\<lambda>i d. and_then (load_at (Array b src) i) (\<lambda>x. store_at d i x)) (Array 0 dst) =
        and_then (for_each [0..<k]
           (\<lambda>i d. and_then (load_at (Array b src) i) (\<lambda>x. store_at d i x)) (Array 0 dst))
          (for_each [k] (\<lambda>i d. and_then (load_at (Array b src) i) (\<lambda>x. store_at d i x)))"
    by (simp only: for_each_append)
  also have "\<dots> = and_then (load_at (Array b src) k)
                      (\<lambda>x. store_at (Array 0 (map Some (take k xs) @ drop k dst)) k x)"
    using Suc.IH k by (simp only: less_imp_le and_then_Inr for_each_single)
  also have "\<dots> = Inr (Array 0 ((map Some (take k xs) @ drop k dst)[k := Some (xs ! k)]))"
    using src ls ld' by (simp add: load_at_def store_at_def and_then_def)
  finally show ?case by (simp only: upd)
qed

lemma move_constructor_sound:
  assumes "holds x xs" "m_reservedSize x \<le> PTRDIFF_MAX"
  shows "\<exists>y x'. Vector_move x = Inr (y, x') \<and> holds y xs \<and>
           Vector_capacity y = Vector_capacity x \<and> Vector_size x' = 0 \<and> m_data x' = nullptr"
proof -
  from assms(1) obtain b cells where d: "m_data x = Array b cells"
    and c: "length cells = m_reservedSize x" and s: "m_size x = length xs"
    and l: "length xs \<le> length cells" and t: "take (length xs) cells = map Some xs"
    by (auto simp: holds_def split: storage.splits)
  let ?dst = "replicate (m_reservedSize x) (None :: 'a cell)"
  have "for_each [0..<length xs]
           (\<lambda>i d. and_then (load_at (Array b cells) i) (\<lambda>x. store_at d i x)) (Array 0 ?dst) =
         Inr (Array 0 (map Some (take (length xs) xs) @ drop (length xs) ?dst))"
    using t l c by (intro move_loop[where n = "length xs"]) simp_all
  then show ?thesis
    using assms(2) d c s l
    by (simp add: Vector_move_def new_array_def and_then_def holds_def Vector_capacity_def
        Vector_size_def)
qed

text \<open>
  Claim C8, at the input it names. Constructed from \<open>{1,2,3}\<close>, the container has size 6:
  the constructor sets \<open>m_size\<close> to 3 before the loop that writes at \<^verbatim>\<open>m_data[m_size++]\<close>,
  so the three values land in cells 3 to 5 and cells 0 to 2 stay indeterminate. The move
  constructor then copies six elements, the first of them indeterminate. (The size is
  doubled for every list: \<open>initializer_list_doubles_size\<close>; the move constructor is
  sound on a sound container: \<open>move_constructor_sound\<close>.)
\<close>

theorem initializer_list_then_move:
  "\<exists>x. Vector_initializer_list [1, 2, 3 :: unsigned] = Inr x \<and>
      Vector_size x = 6 \<and> Vector_capacity x = 6 \<and>
      m_data x = Array 0 [None, None, None, Some 1, Some 2, Some 3] \<and>
      Vector_subscript x 0 = Inl (Undefined IndeterminateValue) \<and>
      Vector_subscript x 3 = Inr 1 \<and>
      Vector_move x = Inl (Undefined IndeterminateValue)"
  by (simp add: Vector_initializer_list_def size_t_def new_array_def PTRDIFF_MAX_def replicate_6
      and_then_def store_at_def Vector_size_def Vector_capacity_def Vector_subscript_def
      load_at_def Vector_move_def upt_rec)

end
